theory Spec2Isabelle
  imports Main
begin

section \<open>JavaScript strings and values\<close>

text \<open>
  A JavaScript string is modelled as a \<^typ>\<open>string\<close>: one \<^typ>\<open>char\<close> stands for one
  code unit, so the model covers text whose code units are below 256 (ASCII and Latin-1).
  The streams are modelled after \<^verbatim>\<open>TextDecoder.decode(value, {stream: true})\<close>: a read
  delivers the decoded text of one network chunk.
\<close>

definition nl :: char where
  "nl = CHR 0x0A"

definition is_space :: "char \<Rightarrow> bool" where
  \<comment> \<open>white space and line terminators: what \<^verbatim>\<open>trim()\<close> strips and \<^verbatim>\<open>\s\<close> matches\<close>
  "is_space c = (c \<in> set [CHR 0x09, CHR 0x0A, CHR 0x0B, CHR 0x0C, CHR 0x0D, CHR 0x20, CHR 0xA0])"

definition trim :: "string \<Rightarrow> string" where
  "trim s = rev (dropWhile is_space (rev (dropWhile is_space s)))"

fun indexOf :: "string \<Rightarrow> char \<Rightarrow> nat option" where
  \<comment> \<open>\<^verbatim>\<open>s.indexOf(c)\<close>; \<open>None\<close> is the result -1\<close>
  "indexOf [] c = None"
| "indexOf (x # xs) c = (if x = c then Some 0 else map_option Suc (indexOf xs c))"

fun startsWith :: "string \<Rightarrow> string \<Rightarrow> bool" where
  "startsWith s [] = True"
| "startsWith [] (p # ps) = False"
| "startsWith (x # xs) (p # ps) = (x = p \<and> startsWith xs ps)"

fun str_includes :: "string \<Rightarrow> string \<Rightarrow> bool" where
  \<comment> \<open>\<^verbatim>\<open>s.includes(t)\<close>: \<open>t\<close> occurs in \<open>s\<close> as a substring\<close>
  "str_includes [] t = (t = [])"
| "str_includes (x # xs) t = (startsWith (x # xs) t \<or> str_includes xs t)"

fun split_on :: "char \<Rightarrow> string \<Rightarrow> string list" where
  \<comment> \<open>\<^verbatim>\<open>s.split(c)\<close> for a one-character separator\<close>
  "split_on c [] = [[]]"
| "split_on c (x # xs) =
     (if x = c then [] # split_on c xs
      else (case split_on c xs of [] \<Rightarrow> [[x]] | l # ls \<Rightarrow> (x # l) # ls))"

text \<open>
  Code units are compared by their bits, the most significant first, which is the order
  of their numbers.
\<close>

definition char_bits :: "char \<Rightarrow> bool list" where
  "char_bits c = [digit7 c, digit6 c, digit5 c, digit4 c, digit3 c, digit2 c, digit1 c, digit0 c]"

fun bits_le :: "bool list \<Rightarrow> bool list \<Rightarrow> bool" where
  "bits_le (a # as) (b # bs) = (if a = b then bits_le as bs else b)"
| "bits_le as bs = True"

definition char_le :: "char \<Rightarrow> char \<Rightarrow> bool" where
  "char_le a b = bits_le (char_bits a) (char_bits b)"

definition in_range :: "char \<Rightarrow> char \<Rightarrow> char \<Rightarrow> bool" where
  "in_range lo hi c = (char_le lo c \<and> char_le c hi)"

definition with_bit5 :: "bool \<Rightarrow> char \<Rightarrow> char" where
  \<comment> \<open>the code unit 32 above or below: an upper-case and a lower-case letter of Latin-1
      differ in bit 5\<close>
  "with_bit5 b c =
     Char (digit0 c) (digit1 c) (digit2 c) (digit3 c) (digit4 c) b (digit6 c) (digit7 c)"

definition toLowerChar :: "char \<Rightarrow> char" where
  "toLowerChar c =
     (if in_range (CHR ''A'') (CHR ''Z'') c \<or> (in_range (CHR 0xC0) (CHR 0xDE) c \<and> c \<noteq> CHR 0xD7)
      then with_bit5 True c else c)"

definition toUpperChar :: "char \<Rightarrow> char" where
  "toUpperChar c =
     (if in_range (CHR ''a'') (CHR ''z'') c \<or> (in_range (CHR 0xE0) (CHR 0xFE) c \<and> c \<noteq> CHR 0xF7)
      then with_bit5 False c else c)"

definition toLowerCase :: "string \<Rightarrow> string" where
  "toLowerCase s = map toLowerChar s"

text \<open>
  The values \<^verbatim>\<open>JSON.parse\<close> returns, and \<^verbatim>\<open>undefined\<close>. A number is kept as the
  text \<^verbatim>\<open>String(n)\<close> prints for it, so that no floating point is modelled: both zeros
  print as \<^verbatim>\<open>0\<close>, and JSON has no NaN. An object is the list of its properties in
  insertion order, each key once.
\<close>

datatype jsval =
    JUndefined
  | JNull
  | JBool bool
  | JNum string
  | JStr string
  | JArr "jsval list"
  | JObj "(string \<times> jsval) list"

fun truthy :: "jsval \<Rightarrow> bool" where
  "truthy JUndefined = False"
| "truthy JNull = False"
| "truthy (JBool b) = b"
| "truthy (JNum n) = (n \<noteq> ''0'')"
| "truthy (JStr s) = (s \<noteq> [])"
| "truthy (JArr xs) = True"
| "truthy (JObj kvs) = True"

fun get_prop :: "jsval \<Rightarrow> string \<Rightarrow> jsval option" where
  \<comment> \<open>\<^verbatim>\<open>v.name\<close> for the names the code reads (message, content, done, model), which no
      primitive or array has: \<open>None\<close> is the TypeError of reading a property of
      \<^verbatim>\<open>null\<close> or \<^verbatim>\<open>undefined\<close>\<close>
  "get_prop JUndefined k = None"
| "get_prop JNull k = None"
| "get_prop (JObj kvs) k = Some (case map_of kvs k of None \<Rightarrow> JUndefined | Some v \<Rightarrow> v)"
| "get_prop v k = Some JUndefined"

fun join_comma :: "string list \<Rightarrow> string" where
  "join_comma [] = []"
| "join_comma [s] = s"
| "join_comma (s # t # ss) = s @ '','' @ join_comma (t # ss)"

fun js_string :: "jsval \<Rightarrow> string" where
  \<comment> \<open>\<^verbatim>\<open>String(v)\<close>, the conversion of \<^verbatim>\<open>+=\<close> on a string and of a template literal\<close>
  "js_string JUndefined = ''undefined''"
| "js_string JNull = ''null''"
| "js_string (JBool b) = (if b then ''true'' else ''false'')"
| "js_string (JNum n) = n"
| "js_string (JStr s) = s"
| "js_string (JArr xs) =
     join_comma (map (\<lambda>x. if x = JNull \<or> x = JUndefined then [] else js_string x) xs)"
| "js_string (JObj kvs) = ''[object Object]''"

definition js_or :: "jsval \<Rightarrow> jsval \<Rightarrow> jsval" where
  \<comment> \<open>\<^verbatim>\<open>a || b\<close>\<close>
  "js_or a b = (if truthy a then a else b)"

type_synonym json_parse = "string \<Rightarrow> jsval option"
  \<comment> \<open>\<^verbatim>\<open>JSON.parse\<close> of the runtime, a parameter of the model: \<open>None\<close> is its SyntaxError\<close>

datatype error = Error string

section \<open>The message list sent to Ollama\<close>

record message =
  m_role :: string
  m_content :: jsval

record model_info =
  mi_model :: string
  mi_customSystemPrompt :: jsval

type_synonym models_list = "(string \<times> model_info list) list"
  \<comment> \<open>\<^verbatim>\<open>constants/models\<close>, a parameter of the model: the categories and their models\<close>

fun getModelConfig :: "models_list \<Rightarrow> string \<Rightarrow> model_info option" where
  "getModelConfig [] modelName = None"
| "getModelConfig ((category, models) # rest) modelName =
     (case find (\<lambda>m. mi_model m = modelName) models of
        Some m \<Rightarrow> Some m
      | None \<Rightarrow> getModelConfig rest modelName)"

definition customSystemPrompt :: "models_list \<Rightarrow> string \<Rightarrow> jsval" where
  \<comment> \<open>\<^verbatim>\<open>modelConfig?.customSystemPrompt\<close>\<close>
  "customSystemPrompt modelsList modelName =
     (case getModelConfig modelsList modelName of
        None \<Rightarrow> JUndefined
      | Some m \<Rightarrow> mi_customSystemPrompt m)"

definition modifiedMessages :: "models_list \<Rightarrow> string \<Rightarrow> message list \<Rightarrow> message list" where
  "modifiedMessages modelsList modelName messages =
     (let prompt = customSystemPrompt modelsList modelName
      in if truthy prompt
         then \<lparr>m_role = ''system'', m_content = prompt\<rparr>
                # filter (\<lambda>msg. m_role msg \<noteq> ''system'') messages
         else messages)"

definition filteredMessages :: "message list \<Rightarrow> message list" where
  \<comment> \<open>\<^verbatim>\<open>sendOllamaRequest\<close>: \<^verbatim>\<open>messages.filter(m => m && m.content)\<close>, the list put in
      the request body\<close>
  "filteredMessages messages = filter (\<lambda>m. truthy (m_content m)) messages"

definition upstreamMessages :: "models_list \<Rightarrow> string \<Rightarrow> message list \<Rightarrow> message list" where
  \<comment> \<open>\<^verbatim>\<open>getCompletion\<close> on the Ollama path, up to the request body of
      \<^verbatim>\<open>sendOllamaRequest\<close>\<close>
  "upstreamMessages modelsList modelName messages =
     filteredMessages (modifiedMessages modelsList modelName messages)"

section \<open>The NDJSON stream processors\<close>

text \<open>
  A stream is the list of the decoded texts its reads deliver. Each processor keeps the
  text after the last newline in \<open>buffer\<close>; \<open>lineEnd\<close> is the index of the first newline of
  the buffer, \<open>None\<close> for -1. The inner loop of each processor may run forever, so it is a
  partial function: \<open>None\<close> is a loop that never returns.
\<close>

subsection \<open>\<^verbatim>\<open>processOllamaStream\<close> (ollama-client.js)\<close>

record content_item =
  it_content :: jsval
  it_done :: jsval

definition client_frame :: "json_parse \<Rightarrow> string \<Rightarrow> content_item list" where
  \<comment> \<open>the \<^verbatim>\<open>try\<close> block of one line: what it yields; a SyntaxError of \<^verbatim>\<open>JSON.parse\<close> and
      the TypeError of \<^verbatim>\<open>data.message\<close> on \<^verbatim>\<open>null\<close> are caught and logged\<close>
  "client_frame parse line =
     (case parse line of
        None \<Rightarrow> []
      | Some data \<Rightarrow>
          (case get_prop data ''message'' of
             None \<Rightarrow> []
           | Some msg \<Rightarrow>
               if \<not> truthy msg then []
               else (case get_prop msg ''content'' of
                       None \<Rightarrow> []
                     | Some c \<Rightarrow>
                         if \<not> truthy c then []
                         else (case get_prop data ''done'' of
                                 None \<Rightarrow> []
                               | Some d \<Rightarrow>
                                   [\<lparr>it_content = c, it_done = js_or d (JBool False)\<rparr>]))))"

partial_function (option) client_lines ::
  "json_parse \<Rightarrow> string \<Rightarrow> nat option \<Rightarrow> content_item list \<Rightarrow> (string \<times> content_item list) option"
where
  "client_lines parse buffer lineEnd out =
     (case lineEnd of
        None \<Rightarrow> Some (buffer, out)
      | Some e \<Rightarrow>
          if trim (take e buffer) = []
          then client_lines parse (drop (e + 1) buffer) lineEnd out
          else client_lines parse (drop (e + 1) buffer) (indexOf (drop (e + 1) buffer) nl)
                 (out @ client_frame parse (trim (take e buffer))))"

fun client_reads ::
  "json_parse \<Rightarrow> string list \<Rightarrow> string \<Rightarrow> content_item list \<Rightarrow> content_item list option"
where
  "client_reads parse [] buffer out = Some out"
| "client_reads parse (chunk # reads) buffer out =
     (case client_lines parse (buffer @ chunk) (indexOf (buffer @ chunk) nl) out of
        None \<Rightarrow> None
      | Some (buffer', out') \<Rightarrow> client_reads parse reads buffer' out')"

definition processOllamaStream ::
  "json_parse \<Rightarrow> string list option \<Rightarrow> (error + content_item list) option"
where
  \<comment> \<open>the stream argument is \<open>None\<close> for \<^verbatim>\<open>null\<close> or \<^verbatim>\<open>undefined\<close>; the result is \<open>None\<close>
      when the generator never finishes, the error it throws, or all it yields\<close>
  "processOllamaStream parse stream =
     (case stream of
        None \<Rightarrow> Some (Inl (Error ''Stream is null or undefined''))
      | Some reads \<Rightarrow> map_option Inr (client_reads parse reads [] []))"

subsection \<open>\<^verbatim>\<open>createOllamaStreamProcessor\<close> (ollama-stream.js)\<close>

text \<open>
  A chunk in the OpenAI format. The \<^verbatim>\<open>id\<close> is kept up to the time stamp that ends it, and
  \<^verbatim>\<open>created\<close>, a time stamp, is left out. In a delta, \<open>d_content\<close> is \<open>JUndefined\<close> when
  the delta has no \<^verbatim>\<open>content\<close> property, and \<open>JNull\<close> when the property is \<^verbatim>\<open>null\<close>.
\<close>

datatype function_call = FcName string | FcArguments string

record delta =
  d_role :: "string option"
  d_content :: jsval
  d_function_call :: "function_call option"

record chunk =
  ch_id :: string
  ch_object :: string
  ch_model :: jsval
  ch_delta :: delta
  ch_finish_reason :: "string option"

definition ollama_chunk :: "bool \<Rightarrow> jsval \<Rightarrow> jsval \<Rightarrow> jsval \<Rightarrow> chunk" where
  \<comment> \<open>the chunk built from a frame with content \<open>c\<close>, model \<open>m\<close> and completion flag
      \<open>d\<close>\<close>
  "ollama_chunk isFirstChunk c m d =
     \<lparr>ch_id = ''ollama-'',
      ch_object = ''chat.completion.chunk'',
      ch_model = js_or m (JStr ''ollama-model''),
      ch_delta = (if isFirstChunk
                  then \<lparr>d_role = Some ''assistant'', d_content = c, d_function_call = None\<rparr>
                  else \<lparr>d_role = None, d_content = c, d_function_call = None\<rparr>),
      ch_finish_reason = (if truthy d then Some ''stop'' else None)\<rparr>"

definition ollama_frame :: "json_parse \<Rightarrow> bool \<Rightarrow> string \<Rightarrow> chunk list" where
  \<comment> \<open>the \<^verbatim>\<open>try\<close> block of one line: what it yields, with \<open>isFirstChunk\<close> as it stands\<close>
  "ollama_frame parse isFirstChunk line =
     (case parse line of
        None \<Rightarrow> []
      | Some ollamaResponse \<Rightarrow>
          (case get_prop ollamaResponse ''message'' of
             None \<Rightarrow> []
           | Some msg \<Rightarrow>
               if \<not> truthy msg then []
               else (case get_prop msg ''content'' of
                       None \<Rightarrow> []
                     | Some c \<Rightarrow>
                         if \<not> truthy c then []
                         else (case (get_prop ollamaResponse ''model'',
                                     get_prop ollamaResponse ''done'') of
                                 (Some m, Some d) \<Rightarrow> [ollama_chunk isFirstChunk c m d]
                               | _ \<Rightarrow> []))))"

partial_function (option) ollama_lines ::
  "json_parse \<Rightarrow> string \<Rightarrow> nat option \<Rightarrow> bool \<Rightarrow> chunk list \<Rightarrow> (string \<times> bool \<times> chunk list) option"
where
  "ollama_lines parse buffer lineEnd isFirstChunk out =
     (case lineEnd of
        None \<Rightarrow> Some (buffer, isFirstChunk, out)
      | Some e \<Rightarrow>
          if trim (take e buffer) = []
          then ollama_lines parse (drop (e + 1) buffer) lineEnd isFirstChunk out
          else ollama_lines parse (drop (e + 1) buffer) (indexOf (drop (e + 1) buffer) nl)
                 (isFirstChunk \<and> ollama_frame parse isFirstChunk (trim (take e buffer)) = [])
                 (out @ ollama_frame parse isFirstChunk (trim (take e buffer))))"

fun ollama_reads ::
  "json_parse \<Rightarrow> string list \<Rightarrow> string \<Rightarrow> bool \<Rightarrow> chunk list \<Rightarrow> chunk list option"
where
  "ollama_reads parse [] buffer isFirstChunk out = Some out"
| "ollama_reads parse (chunk # reads) buffer isFirstChunk out =
     (case ollama_lines parse (buffer @ chunk) (indexOf (buffer @ chunk) nl) isFirstChunk out of
        None \<Rightarrow> None
      | Some (buffer', isFirstChunk', out') \<Rightarrow> ollama_reads parse reads buffer' isFirstChunk' out')"

definition createOllamaStreamProcessor ::
  "json_parse \<Rightarrow> string list option \<Rightarrow> (error + chunk list) option"
where
  "createOllamaStreamProcessor parse stream =
     (case stream of
        None \<Rightarrow> Some (Inl (Error ''Stream is null or undefined''))
      | Some reads \<Rightarrow> map_option Inr (ollama_reads parse reads [] True []))"

subsection \<open>\<^verbatim>\<open>createStreamProcessor\<close> (openai.ts)\<close>

text \<open>
  What this processor yields is a chunk it built from an Ollama frame, or, on the
  event-stream branch, the parsed payload of a \<^verbatim>\<open>data:\<close> line as it is.
\<close>

datatype emitted = Built chunk | Parsed jsval

definition sse_frame :: "json_parse \<Rightarrow> string \<Rightarrow> emitted list" where
  "sse_frame parse data = (case parse data of None \<Rightarrow> [] | Some parsed \<Rightarrow> [Parsed parsed])"

partial_function (option) sse_lines ::
  "json_parse \<Rightarrow> string \<Rightarrow> nat option \<Rightarrow> emitted list \<Rightarrow> (string \<times> emitted list) option"
where
  "sse_lines parse buffer lineEnd out =
     (case lineEnd of
        None \<Rightarrow> Some (buffer, out)
      | Some e \<Rightarrow>
          if trim (take e buffer) = ''data: [DONE]''
          then sse_lines parse (drop (e + 1) buffer) lineEnd out
          else if startsWith (trim (take e buffer)) ''data: ''
          then (if trim (drop 6 (trim (take e buffer))) = []
                then sse_lines parse (drop (e + 1) buffer) lineEnd out
                else sse_lines parse (drop (e + 1) buffer) (indexOf (drop (e + 1) buffer) nl)
                       (out @ sse_frame parse (trim (drop 6 (trim (take e buffer))))))
          else sse_lines parse (drop (e + 1) buffer) (indexOf (drop (e + 1) buffer) nl) out)"

fun stream_reads ::
  "json_parse \<Rightarrow> bool \<Rightarrow> string list \<Rightarrow> string \<Rightarrow> bool \<Rightarrow> emitted list
     \<Rightarrow> (string \<times> bool \<times> emitted list) option"
where
  "stream_reads parse isOllama [] buffer isFirstChunk out = Some (buffer, isFirstChunk, out)"
| "stream_reads parse isOllama (chunk # reads) buffer isFirstChunk out =
     (if isOllama
      then (case ollama_lines parse (buffer @ chunk) (indexOf (buffer @ chunk) nl) isFirstChunk [] of
              None \<Rightarrow> None
            | Some (buffer', isFirstChunk', built) \<Rightarrow>
                stream_reads parse isOllama reads buffer' isFirstChunk' (out @ map Built built))
      else (case sse_lines parse (buffer @ chunk) (indexOf (buffer @ chunk) nl) out of
              None \<Rightarrow> None
            | Some (buffer', out') \<Rightarrow>
                stream_reads parse isOllama reads buffer' isFirstChunk out'))"

fun remaining_lines ::
  "json_parse \<Rightarrow> bool \<Rightarrow> string list \<Rightarrow> bool \<Rightarrow> emitted list \<Rightarrow> emitted list"
where
  \<comment> \<open>the loop over the lines of the remaining buffer, after the last read\<close>
  "remaining_lines parse isOllama [] isFirstChunk out = out"
| "remaining_lines parse isOllama (line # lines) isFirstChunk out =
     (if isOllama
      then (if line \<noteq> []
            then remaining_lines parse isOllama lines
                   (isFirstChunk \<and> ollama_frame parse isFirstChunk line = [])
                   (out @ map Built (ollama_frame parse isFirstChunk line))
            else remaining_lines parse isOllama lines isFirstChunk out)
      else if startsWith line ''data: '' \<and> line \<noteq> ''data: [DONE]''
      then (if trim (drop 6 line) = []
            then remaining_lines parse isOllama lines isFirstChunk out
            else remaining_lines parse isOllama lines isFirstChunk
                   (out @ sse_frame parse (trim (drop 6 line))))
      else remaining_lines parse isOllama lines isFirstChunk out)"

definition createStreamProcessor ::
  "json_parse \<Rightarrow> bool \<Rightarrow> string list option \<Rightarrow> (error + emitted list) option"
where
  \<comment> \<open>\<open>isOllama\<close> is what the processor reads from the global configuration\<close>
  "createStreamProcessor parse isOllama stream =
     (case stream of
        None \<Rightarrow> Some (Inl (Error ''Stream is null or undefined''))
      | Some reads \<Rightarrow>
          (case stream_reads parse isOllama reads [] True [] of
             None \<Rightarrow> None
           | Some (buffer, isFirstChunk, out) \<Rightarrow>
               Some (Inr (if trim buffer \<noteq> []
                          then remaining_lines parse isOllama (split_on nl (trim buffer))
                                 isFirstChunk out
                          else out))))"

section \<open>Regular expressions\<close>

text \<open>
  The regular expressions of the code use literal characters, the classes \<^verbatim>\<open>\s\<close>,
  \<^verbatim>\<open>.\<close> and \<^verbatim>\<open>[...]\<close>, groups, alternatives, the anchor \<^verbatim>\<open>^\<close>, the quantifiers
  \<^verbatim>\<open>+\<close>, \<^verbatim>\<open>*\<close> and \<^verbatim>\<open>*?\<close> on one character, and \<^verbatim>\<open>?\<close>. A regular expression literal is
  kept as its source text and its flags; since a HOL string literal cannot hold a
  backslash, the source text writes \<^verbatim>\<open>%\<close> for it (no expression of the code contains a
  percent sign).
\<close>

datatype regex = RegExp string string

definition bs :: char where
  "bs = CHR 0x5C"

fun regex_toString :: "regex \<Rightarrow> string" where
  "regex_toString (RegExp source flags) =
     ''/'' @ map (\<lambda>c. if c = CHR ''%'' then bs else c) source @ ''/'' @ flags"

datatype class_item = One char | Range char char | Space | NonSpace

datatype cset = Dot | Cls bool bool "class_item list"
  \<comment> \<open>a set of characters: \<^verbatim>\<open>.\<close>, or a class with the flag \<^verbatim>\<open>i\<close>, its negation flag and
      its items; a single character is a class of one item\<close>

datatype rx =
    Chr cset
  | Eps
  | Bol
  | Seq rx rx
  | Alt rx rx
  | Many cset
  | Few cset
  | Grp nat rx

subsection \<open>Reading the source text\<close>

datatype token =
    TChar cset
  | TOpen bool
  | TClose
  | TBar
  | TPlus
  | TStar
  | TLazyStar
  | TQuest
  | TBol

fun in_item :: "class_item \<Rightarrow> char \<Rightarrow> bool" where
  "in_item (One a) x = (x = a)"
| "in_item (Range a b) x = in_range a b x"
| "in_item Space x = is_space x"
| "in_item NonSpace x = (\<not> is_space x)"

definition fold_case :: "bool \<Rightarrow> (char \<Rightarrow> bool) \<Rightarrow> char \<Rightarrow> bool" where
  \<comment> \<open>with the flag \<^verbatim>\<open>i\<close> a character matches a set when one of its case variants is in
      the set\<close>
  "fold_case ignoreCase p x =
     (if ignoreCase then p x \<or> p (toUpperChar x) \<or> p (toLowerChar x) else p x)"

definition class_pred :: "bool \<Rightarrow> bool \<Rightarrow> class_item list \<Rightarrow> char \<Rightarrow> bool" where
  "class_pred ignoreCase negated items x =
     (fold_case ignoreCase (\<lambda>y. list_ex (\<lambda>it. in_item it y) items) x \<noteq> negated)"

definition is_alnum :: "char \<Rightarrow> bool" where
  "is_alnum c =
     (in_range (CHR ''0'') (CHR ''9'') c \<or> in_range (CHR ''A'') (CHR ''Z'') c
      \<or> in_range (CHR ''a'') (CHR ''z'') c)"

definition escape_item :: "char \<Rightarrow> class_item option" where
  \<comment> \<open>the character after a backslash: \<^verbatim>\<open>\s\<close>, \<^verbatim>\<open>\S\<close>, \<^verbatim>\<open>\n\<close>, or a punctuation
      character that stands for itself; other escapes are outside the fragment\<close>
  "escape_item x =
     (if x = CHR ''s'' then Some Space
      else if x = CHR ''S'' then Some NonSpace
      else if x = CHR ''n'' then Some (One nl)
      else if is_alnum x then None
      else Some (One x))"

definition dot_pred :: "char \<Rightarrow> bool" where
  "dot_pred x = (x \<noteq> CHR 0x0A \<and> x \<noteq> CHR 0x0D)"

fun in_cset :: "cset \<Rightarrow> char \<Rightarrow> bool" where
  "in_cset Dot x = dot_pred x"
| "in_cset (Cls ignoreCase negated items) x = class_pred ignoreCase negated items x"

text \<open>
  \<open>tokens\<close> reads the source text; its second argument is \<open>None\<close> outside a class, and
  inside \<^verbatim>\<open>[...]\<close> the negation flag of the class and the items read so far.
\<close>

fun tokens :: "bool \<Rightarrow> (bool \<times> class_item list) option \<Rightarrow> string \<Rightarrow> token list option" where
  "tokens i None [] = Some []"
| "tokens i (Some cls) [] = None"
| "tokens i None (c # cs) =
     (if c = CHR ''%'' then
        (case cs of
           [] \<Rightarrow> None
         | x # cs' \<Rightarrow>
             (case escape_item x of
                None \<Rightarrow> None
              | Some it \<Rightarrow> map_option ((#) (TChar (Cls i False [it]))) (tokens i None cs')))
      else if c = CHR ''['' then
        (if startsWith cs ''^''
         then (case cs of [] \<Rightarrow> None | x # cs' \<Rightarrow> tokens i (Some (True, [])) cs')
         else tokens i (Some (False, [])) cs)
      else if c = CHR ''('' then
        (if startsWith cs ''?:''
         then (case cs of
                 x # y # cs' \<Rightarrow> map_option ((#) (TOpen False)) (tokens i None cs')
               | _ \<Rightarrow> None)
         else map_option ((#) (TOpen True)) (tokens i None cs))
      else if c = CHR '')'' then map_option ((#) TClose) (tokens i None cs)
      else if c = CHR ''|'' then map_option ((#) TBar) (tokens i None cs)
      else if c = CHR ''+'' \<or> c = CHR ''?'' then
        (if startsWith cs ''?'' then None
         else map_option ((#) (if c = CHR ''+'' then TPlus else TQuest)) (tokens i None cs))
      else if c = CHR ''^'' then map_option ((#) TBol) (tokens i None cs)
      else if c = CHR ''*'' then
        (if startsWith cs ''?''
         then (case cs of
                 [] \<Rightarrow> None
               | x # cs' \<Rightarrow> map_option ((#) TLazyStar) (tokens i None cs'))
         else map_option ((#) TStar) (tokens i None cs))
      else if c = CHR ''.'' then map_option ((#) (TChar Dot)) (tokens i None cs)
      else if c \<in> set ''{}]$'' then None
      else map_option ((#) (TChar (Cls i False [One c]))) (tokens i None cs))"
| "tokens i (Some (negated, items)) (c # cs) =
     (if c = CHR '']'' then
        map_option ((#) (TChar (Cls i negated items))) (tokens i None cs)
      else if c = CHR ''%'' then
        (case cs of
           [] \<Rightarrow> None
         | x # cs' \<Rightarrow>
             (case escape_item x of
                None \<Rightarrow> None
              | Some it \<Rightarrow> tokens i (Some (negated, items @ [it])) cs'))
      else if startsWith cs ''-'' \<and> drop 1 cs \<noteq> [] \<and> \<not> startsWith (drop 1 cs) '']'' then
        (case cs of
           x # y # cs' \<Rightarrow>
             if y = CHR ''%'' then None
             else tokens i (Some (negated, items @ [Range c y])) cs'
         | _ \<Rightarrow> None)
      else tokens i (Some (negated, items @ [One c])) cs)"

text \<open>
  \<open>build\<close> assembles the tokens. A frame of its stack is an open group: its capture
  index, its finished alternatives and the terms of the alternative being read, both
  latest first.
\<close>

type_synonym frame = "nat option \<times> rx list \<times> rx list"

definition seq_of :: "rx list \<Rightarrow> rx" where
  "seq_of cur = (case cur of [] \<Rightarrow> Eps | t # ts \<Rightarrow> foldl (\<lambda>acc u. Seq u acc) t ts)"

definition close_frame :: "frame \<Rightarrow> rx" where
  "close_frame f =
     (case f of (g, alts, cur) \<Rightarrow>
        (let body = foldl (\<lambda>acc a. Alt a acc) (seq_of cur) alts
         in case g of None \<Rightarrow> body | Some n \<Rightarrow> Grp n body))"

fun build :: "token list \<Rightarrow> frame list \<Rightarrow> nat \<Rightarrow> rx option" where
  "build [] [f] n = Some (close_frame f)"
| "build [] stack n = None"
| "build (t # ts) [] n = None"
| "build (TChar p # ts) ((g, alts, cur) # stack) n = build ts ((g, alts, Chr p # cur) # stack) n"
| "build (TBol # ts) ((g, alts, cur) # stack) n = build ts ((g, alts, Bol # cur) # stack) n"
| "build (TOpen capture # ts) stack n =
     (if capture then build ts ((Some n, [], []) # stack) (n + 1)
      else build ts ((None, [], []) # stack) n)"
| "build (TClose # ts) (f # (g, alts, cur) # stack) n =
     build ts ((g, alts, close_frame f # cur) # stack) n"
| "build (TClose # ts) [f] n = None"
| "build (TBar # ts) ((g, alts, cur) # stack) n = build ts ((g, seq_of cur # alts, []) # stack) n"
| "build (TPlus # ts) ((g, alts, Chr p # cur) # stack) n =
     build ts ((g, alts, Seq (Chr p) (Many p) # cur) # stack) n"
| "build (TStar # ts) ((g, alts, Chr p # cur) # stack) n =
     build ts ((g, alts, Many p # cur) # stack) n"
| "build (TLazyStar # ts) ((g, alts, Chr p # cur) # stack) n =
     build ts ((g, alts, Few p # cur) # stack) n"
| "build (TQuest # ts) ((g, alts, t # cur) # stack) n =
     build ts ((g, alts, Alt t Eps # cur) # stack) n"
| "build (t # ts) stack n = None"

fun compile :: "regex \<Rightarrow> rx option" where
  "compile (RegExp source flags) =
     (case tokens (CHR ''i'' \<in> set flags) None source of
        None \<Rightarrow> None
      | Some ts \<Rightarrow> build ts [(None, [], [])] 1)"

subsection \<open>Matching\<close>

text \<open>
  A matcher state is the index reached, the text from there on and the captures made so
  far, latest first. \<open>rmatch\<close> lists the states in which an expression can end, in the
  order backtracking tries them: the first state that lets the rest of the expression
  match is the one the engine takes.
\<close>

type_synonym mstate = "nat \<times> string \<times> (nat \<times> string) list"

fun many :: "cset \<Rightarrow> nat \<Rightarrow> string \<Rightarrow> (nat \<times> string) list \<Rightarrow> mstate list" where
  "many p pos [] caps = [(pos, [], caps)]"
| "many p pos (x # xs) caps =
     (if in_cset p x then many p (pos + 1) xs caps @ [(pos, x # xs, caps)]
      else [(pos, x # xs, caps)])"

fun few :: "cset \<Rightarrow> nat \<Rightarrow> string \<Rightarrow> (nat \<times> string) list \<Rightarrow> mstate list" where
  "few p pos [] caps = [(pos, [], caps)]"
| "few p pos (x # xs) caps =
     (pos, x # xs, caps) # (if in_cset p x then few p (pos + 1) xs caps else [])"

fun rmatch :: "rx \<Rightarrow> mstate \<Rightarrow> mstate list" where
  "rmatch (Chr p) (pos, s, caps) =
     (case s of [] \<Rightarrow> [] | x # xs \<Rightarrow> if in_cset p x then [(pos + 1, xs, caps)] else [])"
| "rmatch Eps st = [st]"
| "rmatch Bol (pos, s, caps) = (if pos = 0 then [(pos, s, caps)] else [])"
| "rmatch (Seq a b) st = concat (map (rmatch b) (rmatch a st))"
| "rmatch (Alt a b) st = rmatch a st @ rmatch b st"
| "rmatch (Many p) (pos, s, caps) = many p pos s caps"
| "rmatch (Few p) (pos, s, caps) = few p pos s caps"
| "rmatch (Grp n a) (pos, s, caps) =
     map (\<lambda>(pos', s', caps'). (pos', s', (n, take (pos' - pos) s) # caps')) (rmatch a (pos, s, caps))"

record rmatch_result =
  matched :: string
  captures :: "(nat \<times> string) list"
  after :: string

definition group :: "rmatch_result \<Rightarrow> nat \<Rightarrow> string option" where
  \<comment> \<open>\<^verbatim>\<open>match[n]\<close>; \<open>None\<close> is \<^verbatim>\<open>undefined\<close>\<close>
  "group m n = (if n = 0 then Some (matched m) else map_of (captures m) n)"

definition match_at :: "rx \<Rightarrow> nat \<Rightarrow> string \<Rightarrow> rmatch_result option" where
  \<comment> \<open>the match that starts at the index \<open>pos\<close>, where the text from there on is \<open>s\<close>\<close>
  "match_at r pos s =
     (case rmatch r (pos, s, []) of
        [] \<Rightarrow> None
      | (pos', s', caps) # _ \<Rightarrow> Some \<lparr>matched = take (pos' - pos) s, captures = caps, after = s'\<rparr>)"

fun exec_from :: "rx \<Rightarrow> nat \<Rightarrow> string \<Rightarrow> rmatch_result option" where
  "exec_from r pos [] = match_at r pos []"
| "exec_from r pos (x # xs) =
     (if match_at r pos (x # xs) = None then exec_from r (pos + 1) xs
      else match_at r pos (x # xs))"

definition js_match :: "string \<Rightarrow> regex \<Rightarrow> rmatch_result option" where
  \<comment> \<open>\<^verbatim>\<open>text.match(regex)\<close> for a regex without the flag \<^verbatim>\<open>g\<close>: the leftmost match\<close>
  "js_match text regex = (case compile regex of None \<Rightarrow> None | Some r \<Rightarrow> exec_from r 0 text)"

text \<open>
  \<^verbatim>\<open>text.matchAll(regex)\<close> for a regex with the flag \<^verbatim>\<open>g\<close>: the matches from left to
  right, each search starting where the last match ended, one character further on after
  an empty match.
\<close>

function exec_all :: "rx \<Rightarrow> nat \<Rightarrow> string \<Rightarrow> rmatch_result list" where
  "exec_all r pos s =
     (case exec_from r pos s of
        None \<Rightarrow> []
      | Some m \<Rightarrow>
          m # (if length (after m) < length s
               then exec_all r (pos + (length s - length (after m))) (after m)
               else (case after m of
                       [] \<Rightarrow> []
                     | x # xs \<Rightarrow>
                         if length xs < length s then exec_all r (pos + 1) xs else [])))"
  by pat_completeness auto
termination
  by (relation "measure (\<lambda>(r, pos, s). length s)") auto

definition js_matchAll :: "string \<Rightarrow> regex \<Rightarrow> rmatch_result list" where
  "js_matchAll text regex = (case compile regex of None \<Rightarrow> [] | Some r \<Rightarrow> exec_all r 0 text)"

section \<open>Intent recovery\<close>

subsection \<open>The command patterns\<close>

definition sq :: string where
  \<comment> \<open>a single quote, which cannot end a HOL string literal\<close>
  "sq = [CHR 0x27]"

definition commandPatterns_streaming :: "regex list" where
  \<comment> \<open>the table of the streaming path\<close>
  \<open>commandPatterns_streaming =
     [RegExp ''run%s+`([^`]+)`'' ''i'',
      RegExp ''run%s+"([^"]+)"'' ''i'',
      RegExp (''run%s+'([^']+)'' @ sq) ''i'',
      RegExp ''run%s+the%s+command%s+`([^`]+)`'' ''i'',
      RegExp ''run%s+the%s+command%s+"([^"]+)"'' ''i'',
      RegExp (''run%s+the%s+command%s+'([^']+)'' @ sq) ''i'',
      RegExp ''execute%s+`([^`]+)`'' ''i'',
      RegExp ''execute%s+"([^"]+)"'' ''i'',
      RegExp (''execute%s+'([^']+)'' @ sq) ''i'',
      RegExp ''execute%s+the%s+command%s+`([^`]+)`'' ''i'',
      RegExp ''execute%s+the%s+command%s+"([^"]+)"'' ''i'',
      RegExp (''execute%s+the%s+command%s+'([^']+)'' @ sq) ''i'',
      RegExp ''run git (status|diff|log|branch|checkout|pull|push|fetch|clone|add|commit|reset|revert|stash|merge|rebase)'' ''i'',
      RegExp ''execute git (status|diff|log|branch|checkout|pull|push|fetch|clone|add|commit|reset|revert|stash|merge|rebase)'' ''i'',
      RegExp ''run ls'' ''i'',
      RegExp ''run cd'' ''i'',
      RegExp ''run mkdir'' ''i'',
      RegExp ''run rm'' ''i'',
      RegExp ''run cat'' ''i'',
      RegExp ''run grep'' ''i'',
      RegExp ''run find'' ''i'',
      RegExp ''run echo'' ''i'',
      RegExp ''run touch'' ''i'',
      RegExp ''run ([a-zA-Z0-9_%-%.%/]+(%s+[^%n%."%']+)?)'' ''i'',
      RegExp ''execute ([a-zA-Z0-9_%-%.%/]+(%s+[^%n%."%']+)?)'' ''i'',
      RegExp ''you.* need to run git status'' ''i'',
      RegExp ''you.* run the git status command'' ''i'',
      RegExp ''I.* need to run git status'' ''i'',
      RegExp ''I.* run git status for'' ''i'',
      RegExp ''using the git status command'' ''i'',
      RegExp ''To check .* git status'' ''i'',
      RegExp ''To see .* git status'' ''i'',
      RegExp ''to check .* run "([^"]+)"'' ''i'',
      RegExp (''to check .* run '([^']+)'' @ sq) ''i'',
      RegExp ''to check .* run `([^`]+)`'' ''i'',
      RegExp ''to see .* run "([^"]+)"'' ''i'',
      RegExp (''to see .* run '([^']+)'' @ sq) ''i'',
      RegExp ''to see .* run `([^`]+)`'' ''i'',
      RegExp ''to view .* run "([^"]+)"'' ''i'',
      RegExp (''to view .* run '([^']+)'' @ sq) ''i'',
      RegExp ''to view .* run `([^`]+)`'' ''i'',
      RegExp ''you (?:should|need to|can|could|would|must) run%s+([a-zA-Z0-9_%-%.%/]+(%s+[^%n%."%'])?)'' ''i'',
      RegExp ''you (?:should|need to|can|could|would|must) run%s+"([^"]+)"'' ''i'',
      RegExp (''you (?:should|need to|can|could|would|must) run%s+'([^']+)'' @ sq) ''i'',
      RegExp ''you (?:should|need to|can|could|would|must) run%s+`([^`]+)`'' ''i'',
      RegExp ''I(?:'ll| will| should| need to) run%s+([a-zA-Z0-9_%-%.%/]+(%s+[^%n%."%'])?)'' ''i'',
      RegExp ''I(?:'ll| will| should| need to) run%s+"([^"]+)"'' ''i'',
      RegExp (''I(?:'ll| will| should| need to) run%s+'([^']+)'' @ sq) ''i'',
      RegExp ''I(?:'ll| will| should| need to) run%s+`([^`]+)`'' ''i'']\<close>

definition commandPatterns_nonstreaming :: "regex list" where
  \<comment> \<open>the table of the non-streaming path\<close>
  \<open>commandPatterns_nonstreaming =
     [RegExp ''run%s+`([^`]+)`'' ''i'',
      RegExp ''run%s+"([^"]+)"'' ''i'',
      RegExp (''run%s+'([^']+)'' @ sq) ''i'',
      RegExp ''run%s+the%s+command%s+`([^`]+)`'' ''i'',
      RegExp ''run%s+the%s+command%s+"([^"]+)"'' ''i'',
      RegExp (''run%s+the%s+command%s+'([^']+)'' @ sq) ''i'',
      RegExp ''execute%s+`([^`]+)`'' ''i'',
      RegExp ''execute%s+"([^"]+)"'' ''i'',
      RegExp (''execute%s+'([^']+)'' @ sq) ''i'',
      RegExp ''execute%s+the%s+command%s+`([^`]+)`'' ''i'',
      RegExp ''execute%s+the%s+command%s+"([^"]+)"'' ''i'',
      RegExp (''execute%s+the%s+command%s+'([^']+)'' @ sq) ''i'',
      RegExp ''run git (add|status|diff|log|branch|checkout|pull|push|fetch|clone|commit|reset|revert|stash|merge|rebase)(%s+[^%n]+)?'' ''i'',
      RegExp ''execute git (add|status|diff|log|branch|checkout|pull|push|fetch|clone|commit|reset|revert|stash|merge|rebase)(%s+[^%n]+)?'' ''i'',
      RegExp ''git (add|status|diff|log|branch|checkout|pull|push|fetch|clone|commit|reset|revert|stash|merge|rebase)(%s+[^%n]+)?'' ''i'',
      RegExp ''run ls'' ''i'',
      RegExp ''run cd'' ''i'',
      RegExp ''run mkdir'' ''i'',
      RegExp ''run rm'' ''i'',
      RegExp ''run cat'' ''i'',
      RegExp ''run grep'' ''i'',
      RegExp ''run find'' ''i'',
      RegExp ''run echo'' ''i'',
      RegExp ''run touch'' ''i'',
      RegExp ''run ([a-zA-Z0-9_%-%.%/]+(%s+[^%n%."%']+)?)'' ''i'',
      RegExp ''execute ([a-zA-Z0-9_%-%.%/]+(%s+[^%n%."%']+)?)'' ''i'',
      RegExp ''you.* need to run git status'' ''i'',
      RegExp ''you.* run the git status command'' ''i'',
      RegExp ''I.* need to run git status'' ''i'',
      RegExp ''I.* run git status for'' ''i'',
      RegExp ''using the git status command'' ''i'',
      RegExp ''To check .* git status'' ''i'',
      RegExp ''To see .* git status'' ''i'',
      RegExp ''to check .* run "([^"]+)"'' ''i'',
      RegExp (''to check .* run '([^']+)'' @ sq) ''i'',
      RegExp ''to check .* run `([^`]+)`'' ''i'',
      RegExp ''to see .* run "([^"]+)"'' ''i'',
      RegExp (''to see .* run '([^']+)'' @ sq) ''i'',
      RegExp ''to see .* run `([^`]+)`'' ''i'',
      RegExp ''to view .* run "([^"]+)"'' ''i'',
      RegExp (''to view .* run '([^']+)'' @ sq) ''i'',
      RegExp ''to view .* run `([^`]+)`'' ''i'',
      RegExp ''you (?:should|need to|can|could|would|must) run%s+([a-zA-Z0-9_%-%.%/]+(%s+[^%n%."%'])?)'' ''i'',
      RegExp ''you (?:should|need to|can|could|would|must) run%s+"([^"]+)"'' ''i'',
      RegExp (''you (?:should|need to|can|could|would|must) run%s+'([^']+)'' @ sq) ''i'',
      RegExp ''you (?:should|need to|can|could|would|must) run%s+`([^`]+)`'' ''i'',
      RegExp ''I(?:'ll| will| should| need to) run%s+([a-zA-Z0-9_%-%.%/]+(%s+[^%n%."%'])?)'' ''i'',
      RegExp ''I(?:'ll| will| should| need to) run%s+"([^"]+)"'' ''i'',
      RegExp (''I(?:'ll| will| should| need to) run%s+'([^']+)'' @ sq) ''i'',
      RegExp ''I(?:'ll| will| should| need to) run%s+`([^`]+)`'' ''i'']\<close>

definition is_set :: "string option \<Rightarrow> bool" where
  \<comment> \<open>a command, or a capture, that is neither \<^verbatim>\<open>null\<close> or \<^verbatim>\<open>undefined\<close> nor the empty
      string\<close>
  "is_set v = (case v of None \<Rightarrow> False | Some c \<Rightarrow> c \<noteq> [])"

definition strip_verb :: "string \<Rightarrow> string" where
  \<comment> \<open>\<^verbatim>\<open>s.replace(/^(run|execute)\s+/, '')\<close>\<close>
  "strip_verb s =
     (case js_match s (RegExp ''^(run|execute)%s+'' []) of
        None \<Rightarrow> s
      | Some m \<Rightarrow> after m)"

definition pattern_command :: "regex \<Rightarrow> rmatch_result \<Rightarrow> string option" where
  \<comment> \<open>the body of the loop for a pattern that matches: the command it sets before it
      breaks, \<open>None\<close> when it sets none and the loop goes on\<close>
  "pattern_command pattern m =
     (if str_includes (regex_toString pattern) ''(add|status|diff|log'' \<and> matched m \<noteq> []
      then (if startsWith (matched m) ''run '' \<or> startsWith (matched m) ''execute ''
            then Some (strip_verb (matched m))
            else Some (matched m))
      else if is_set (group m 1) then group m 1
      else None)"

fun scan_patterns :: "regex list \<Rightarrow> string \<Rightarrow> string option" where
  \<comment> \<open>the loop over the table: the command it leaves, \<open>None\<close> when it ends without one\<close>
  "scan_patterns [] text = None"
| "scan_patterns (pattern # patterns) text =
     (if Option.bind (js_match text pattern) (pattern_command pattern) = None
      then scan_patterns patterns text
      else Option.bind (js_match text pattern) (pattern_command pattern))"

subsection \<open>The git detectors\<close>

definition first_match :: "string \<Rightarrow> regex list \<Rightarrow> rmatch_result option" where
  \<comment> \<open>\<^verbatim>\<open>text.match(r1) || text.match(r2) || text.match(r3)\<close>\<close>
  "first_match text rs = (case List.map_filter (js_match text) rs of [] \<Rightarrow> None | m # _ \<Rightarrow> Some m)"

definition git_status_intent :: "string \<Rightarrow> bool" where
  "git_status_intent text =
     (let l = toLowerCase text
      in str_includes l ''git status''
         \<or> (str_includes l ''run git'' \<and> str_includes l ''status'')
         \<or> (str_includes l ''show'' \<and> str_includes l ''status'')
         \<or> (str_includes l ''user'' \<and> str_includes l ''git'' \<and> str_includes l ''status''))"

definition git_add_intent :: "string \<Rightarrow> bool" where
  "git_add_intent text =
     (let l = toLowerCase text
      in str_includes l ''git add''
         \<or> (str_includes l ''run git'' \<and> str_includes l ''add'')
         \<or> (str_includes l ''stage'' \<and> str_includes l ''changes''))"

definition git_commit_intent :: "string \<Rightarrow> bool" where
  "git_commit_intent text =
     (let l = toLowerCase text
      in str_includes l ''git commit''
         \<or> (str_includes l ''run git'' \<and> str_includes l ''commit'')
         \<or> (str_includes l ''execute git'' \<and> str_includes l ''commit'')
         \<or> (str_includes l ''commit'' \<and> str_includes l ''changes''))"

definition git_push_intent :: "string \<Rightarrow> bool" where
  "git_push_intent text =
     (let l = toLowerCase text
      in str_includes l ''git push''
         \<or> (str_includes l ''run git'' \<and> str_includes l ''push'')
         \<or> (str_includes l ''execute git'' \<and> str_includes l ''push'')
         \<or> (str_includes l ''push'' \<and> str_includes l ''changes'' \<and> str_includes l ''remote''))"

definition addMatch :: "string \<Rightarrow> rmatch_result option" where
  \<open>addMatch text =
     first_match text
       [RegExp ''git add%s+([^%n]+)'' ''i'',
        RegExp ''run git add%s+([^%n]+)'' ''i'',
        RegExp ''execute git add%s+([^%n]+)'' ''i'']\<close>

definition commitMatch :: "string \<Rightarrow> rmatch_result option" where
  \<open>commitMatch text =
     first_match text
       [RegExp ''git commit%s+-m%s+["']([^"']+)["']'' ''i'',
        RegExp ''run git commit%s+-m%s+["']([^"']+)["']'' ''i'',
        RegExp ''execute git commit%s+-m%s+["']([^"']+)["']'' ''i'']\<close>

definition commitAllMatch :: "string \<Rightarrow> rmatch_result option" where
  \<open>commitAllMatch text =
     first_match text
       [RegExp ''git commit%s+-am%s+["']([^"']+)["']'' ''i'',
        RegExp ''run git commit%s+-am%s+["']([^"']+)["']'' ''i'',
        RegExp ''execute git commit%s+-am%s+["']([^"']+)["']'' ''i'']\<close>

definition pushMatch :: "string \<Rightarrow> rmatch_result option" where
  \<open>pushMatch text =
     first_match text
       [RegExp ''git push%s+([^%n]+)'' ''i'',
        RegExp ''run git push%s+([^%n]+)'' ''i'',
        RegExp ''execute git push%s+([^%n]+)'' ''i'']\<close>

definition group1_set :: "rmatch_result option \<Rightarrow> string option" where
  \<comment> \<open>\<^verbatim>\<open>m && m[1]\<close>: the first capture when it is there and not empty\<close>
  "group1_set m =
     (case m of None \<Rightarrow> None | Some r \<Rightarrow> if is_set (group r 1) then group r 1 else None)"

definition default_commit :: string where
  \<open>default_commit = ''git commit -m "Changes from Claude Code session"''\<close>

definition git_add_command :: "string \<Rightarrow> string" where
  "git_add_command text =
     (case group1_set (addMatch text) of Some a \<Rightarrow> ''git add '' @ a | None \<Rightarrow> ''git add .'')"

definition git_commit_command :: "string \<Rightarrow> string" where
  \<open>git_commit_command text =
     (case group1_set (commitMatch text) of
        Some msg \<Rightarrow> ''git commit -m "'' @ msg @ ''"''
      | None \<Rightarrow>
          (case group1_set (commitAllMatch text) of
             Some msg \<Rightarrow> ''git commit -am "'' @ msg @ ''"''
           | None \<Rightarrow> default_commit))\<close>

definition git_push_command :: "string \<Rightarrow> string" where
  "git_push_command text =
     (case group1_set (pushMatch text) of Some a \<Rightarrow> ''git push '' @ a | None \<Rightarrow> ''git push'')"

definition git_detectors :: "string option \<Rightarrow> string \<Rightarrow> string option" where
  \<comment> \<open>the \<^verbatim>\<open>if\<close> / \<^verbatim>\<open>else if\<close> chain after the loop over the table\<close>
  "git_detectors command text =
     (if \<not> is_set command \<and> git_status_intent text then Some ''git status''
      else if \<not> is_set command \<and> git_add_intent text then Some (git_add_command text)
      else if \<not> is_set command \<and> git_commit_intent text then Some (git_commit_command text)
      else if \<not> is_set command \<and> git_push_intent text then Some (git_push_command text)
      else command)"

subsection \<open>The thinking section\<close>

definition thinking_command :: "string \<Rightarrow> string option" where
  "thinking_command thinkingContent =
     (if str_includes thinkingContent ''git status'' then Some ''git status''
      else if str_includes thinkingContent ''git diff'' then Some ''git diff''
      else if str_includes thinkingContent ''git log'' then Some ''git log''
      else if str_includes thinkingContent ''git add'' then Some ''git add .''
      else if str_includes thinkingContent ''git commit'' then Some default_commit
      else if str_includes thinkingContent ''git push'' then Some ''git push''
      else None)"

definition thinking_fallback :: "string option \<Rightarrow> string \<Rightarrow> string option" where
  "thinking_fallback command text =
     (if \<not> is_set command \<and> str_includes text ''<think>''
      then (case group1_set (js_match text (RegExp ''<think>([%s%S]*?)<%/think>'' [])) of
              None \<Rightarrow> command
            | Some thinkingContent \<Rightarrow>
                (case thinking_command thinkingContent of None \<Rightarrow> command | Some c \<Rightarrow> Some c))
      else command)"

definition detect_command :: "regex list \<Rightarrow> string \<Rightarrow> string option" where
  \<comment> \<open>the command the text is taken to ask for, when no explicit block was found\<close>
  "detect_command patterns text =
     thinking_fallback (git_detectors (scan_patterns patterns text) text) text"

subsection \<open>The explicit block and the recovered invocation\<close>

text \<open>
  The object \<^verbatim>\<open>params\<close>. It is created as \<^verbatim>\<open>{}\<close>, or as \<^verbatim>\<open>{ command: command }\<close>, with
  \<^verbatim>\<open>Object.prototype\<close> as its prototype, and gets its properties by assignment,
  \<^verbatim>\<open>params[paramName] = v\<close>. The values assigned are strings or come from \<^verbatim>\<open>JSON.parse\<close>,
  whose objects have \<^verbatim>\<open>Object.prototype\<close>, and whose arrays have \<^verbatim>\<open>Array.prototype\<close>, as
  prototype, and have every property, one named \<^verbatim>\<open>__proto__\<close> included, as a writable data
  property of their own. So an assignment creates or updates a data property of \<^verbatim>\<open>params\<close>
  itself, with one exception: the name \<^verbatim>\<open>__proto__\<close>, when the assignment reaches the
  accessor of that name of \<^verbatim>\<open>Object.prototype\<close>. The setter creates no property: it makes
  the value the prototype of \<^verbatim>\<open>params\<close> when the value is an object, an array or \<^verbatim>\<open>null\<close>,
  and does nothing when it is a primitive. The assignment does not reach the accessor
  when \<^verbatim>\<open>params\<close> has a property \<^verbatim>\<open>__proto__\<close> of its own, when its prototype is \<^verbatim>\<open>null\<close>, or
  when its prototype is an object with a property \<^verbatim>\<open>__proto__\<close> of its own.

  The own properties are listed in the order of their creation, each key once.
\<close>

datatype prototype =
    ObjectPrototype
  | NullPrototype
  | ObjProto "(string \<times> jsval) list"
  | ArrProto "jsval list"

record js_object =
  obj_own :: "(string \<times> jsval) list"
  obj_proto :: prototype

record invocation =
  inv_name :: string
  inv_arguments :: js_object

definition new_object :: "(string \<times> jsval) list \<Rightarrow> js_object" where
  \<comment> \<open>an object literal: \<^verbatim>\<open>{}\<close> is \<open>new_object []\<close>\<close>
  "new_object kvs = \<lparr>obj_own = kvs, obj_proto = ObjectPrototype\<rparr>"

fun put_own :: "(string \<times> jsval) list \<Rightarrow> string \<Rightarrow> jsval \<Rightarrow> (string \<times> jsval) list" where
  \<comment> \<open>the data property \<open>k\<close> created, or updated where it is\<close>
  "put_own [] k v = [(k, v)]"
| "put_own ((k', v') # kvs) k v =
     (if k' = k then (k, v) # kvs else (k', v') # put_own kvs k v)"

definition proto_setter_reached :: "js_object \<Rightarrow> bool" where
  \<comment> \<open>whether an assignment to \<^verbatim>\<open>__proto__\<close> finds the accessor of \<^verbatim>\<open>Object.prototype\<close>
      first on the prototype chain\<close>
  "proto_setter_reached obj =
     (map_of (obj_own obj) ''__proto__'' = None
      \<and> (case obj_proto obj of
           ObjectPrototype \<Rightarrow> True
         | NullPrototype \<Rightarrow> False
         | ObjProto kvs \<Rightarrow> map_of kvs ''__proto__'' = None
         | ArrProto xs \<Rightarrow> True))"

definition set_prototype :: "js_object \<Rightarrow> jsval \<Rightarrow> js_object" where
  \<comment> \<open>the setter of \<^verbatim>\<open>__proto__\<close>\<close>
  "set_prototype obj v =
     (case v of
        JObj kvs \<Rightarrow> obj\<lparr>obj_proto := ObjProto kvs\<rparr>
      | JArr xs \<Rightarrow> obj\<lparr>obj_proto := ArrProto xs\<rparr>
      | JNull \<Rightarrow> obj\<lparr>obj_proto := NullPrototype\<rparr>
      | _ \<Rightarrow> obj)"

definition set_prop :: "js_object \<Rightarrow> string \<Rightarrow> jsval \<Rightarrow> js_object" where
  \<comment> \<open>\<^verbatim>\<open>params[k] = v\<close>\<close>
  "set_prop obj k v =
     (if k = ''__proto__'' \<and> proto_setter_reached obj then set_prototype obj v
      else obj\<lparr>obj_own := put_own (obj_own obj) k v\<rparr>)"

definition params_command :: "js_object \<Rightarrow> jsval" where
  \<comment> \<open>\<^verbatim>\<open>params.command\<close>: the property of \<^verbatim>\<open>params\<close> itself, else the one of an object
      that was made its prototype; neither \<^verbatim>\<open>Object.prototype\<close> nor an array has a
      property of this name\<close>
  "params_command params =
     (case map_of (obj_own params) ''command'' of
        Some v \<Rightarrow> v
      | None \<Rightarrow>
          (case obj_proto params of
             ObjProto kvs \<Rightarrow> (case map_of kvs ''command'' of Some v \<Rightarrow> v | None \<Rightarrow> JUndefined)
           | _ \<Rightarrow> JUndefined))"

definition explicitFuncCallRegex :: regex where
  \<open>explicitFuncCallRegex = RegExp ''<function_calls>([%s%S]*?)<%/function_calls>'' []\<close>

definition invokeNameRegex :: regex where
  \<open>invokeNameRegex = RegExp ''<invoke name="([^"]+)">'' []\<close>

definition parameterRegex :: regex where
  \<open>parameterRegex = RegExp ''<parameter name="([^"]+)">([%s%S]*?)<%/parameter>'' ''g''\<close>

definition add_param :: "json_parse \<Rightarrow> js_object \<Rightarrow> rmatch_result \<Rightarrow> js_object" where
  \<comment> \<open>one round of the loop over the parameter matches: the value as JSON, the raw text
      when \<^verbatim>\<open>JSON.parse\<close> throws\<close>
  "add_param parse params paramMatch =
     (case (group paramMatch 1, group paramMatch 2) of
        (Some paramName, Some paramValue) \<Rightarrow>
          set_prop params paramName
            (case parse paramValue of Some v \<Rightarrow> v | None \<Rightarrow> JStr paramValue)
      | _ \<Rightarrow> params)"

definition explicit_call :: "json_parse \<Rightarrow> rmatch_result \<Rightarrow> invocation option" where
  \<comment> \<open>the invocation read from the match of the explicit block; \<open>None\<close> when the name
      cannot be read, and the text is then returned as ordinary content\<close>
  "explicit_call parse match =
     (case group match 1 of
        None \<Rightarrow> None
      | Some inner \<Rightarrow>
          (case js_match inner invokeNameRegex of
             None \<Rightarrow> None
           | Some nameMatch \<Rightarrow>
               (case group nameMatch 1 of
                  None \<Rightarrow> None
                | Some functionName \<Rightarrow>
                    Some \<lparr>inv_name = functionName,
                          inv_arguments =
                            foldl (add_param parse) (new_object []) (js_matchAll inner parameterRegex)\<rparr>)))"

definition synthesized_call :: "regex list \<Rightarrow> string \<Rightarrow> invocation option" where
  \<comment> \<open>the Bash call built when the text has no explicit block and a command was found\<close>
  "synthesized_call patterns text =
     (case detect_command patterns text of
        None \<Rightarrow> None
      | Some command \<Rightarrow>
          if command \<noteq> []
          then Some \<lparr>inv_name = ''Bash'', inv_arguments = new_object [(''command'', JStr command)]\<rparr>
          else None)"

definition intent_recovery :: "json_parse \<Rightarrow> regex list \<Rightarrow> string \<Rightarrow> invocation option" where
  \<comment> \<open>the recovery both paths of \<^verbatim>\<open>getCompletion\<close> run on the accumulated text, each
      with its own table; \<open>None\<close> when the text is ordinary content\<close>
  "intent_recovery parse patterns text =
     (if js_match text explicitFuncCallRegex = None then synthesized_call patterns text
      else Option.bind (js_match text explicitFuncCallRegex) (explicit_call parse))"

definition recover_streaming :: "json_parse \<Rightarrow> string \<Rightarrow> invocation option" where
  "recover_streaming parse text = intent_recovery parse commandPatterns_streaming text"

definition recover_nonstreaming :: "json_parse \<Rightarrow> string \<Rightarrow> invocation option" where
  "recover_nonstreaming parse text = intent_recovery parse commandPatterns_nonstreaming text"

section \<open>Dispatch\<close>

text \<open>
  The execution collaborator is \<^verbatim>\<open>execSync\<close> of \<^verbatim>\<open>child_process\<close>, a parameter of the model:
  it returns the captured output or throws. Of what it throws the code reads
  \<^verbatim>\<open>err.message\<close> and, when that is falsy, the error itself as text.
  \<^verbatim>\<open>JSON.stringify\<close> of the argument object is a parameter as well.
\<close>

record js_error =
  err_message :: jsval
  err_text :: string

type_synonym exec_sync = "jsval \<Rightarrow> js_error + string"
type_synonym json_stringify = "js_object \<Rightarrow> string"

definition fence :: string where
  "fence = ''```''"

definition output_text :: "jsval \<Rightarrow> string \<Rightarrow> string" where
  "output_text command cmdOutput =
     ''Here's the output of `'' @ js_string command @ ''`:'' @ [nl, nl]
       @ fence @ [nl] @ cmdOutput @ [nl] @ fence"

definition error_shown :: "js_error \<Rightarrow> string" where
  \<comment> \<open>\<^verbatim>\<open>err.message || err\<close> in the template literal\<close>
  "error_shown err = (if truthy (err_message err) then js_string (err_message err) else err_text err)"

definition error_text :: "jsval \<Rightarrow> js_error \<Rightarrow> string" where
  "error_text command err =
     ''Error executing `'' @ js_string command @ ''`:'' @ [nl, nl]
       @ fence @ [nl] @ error_shown err @ [nl] @ fence"






definition accumulate :: "content_item list \<Rightarrow> string" where
  \<comment> \<open>the loop \<^verbatim>\<open>for await (const chunk of ollamaStream)\<close>\<close>
  "accumulate items =
     foldl (\<lambda>acc item. if truthy (it_content item) then acc @ js_string (it_content item) else acc)
       [] items"


subsection \<open>The non-streaming path\<close>

record completion_message =
  cm_role :: string
  cm_content :: jsval
  cm_function_call :: "(string \<times> string) option"

record completion =
  cp_id :: string
  cp_object :: string
  cp_model :: jsval
  cp_message :: completion_message
  cp_finish_reason :: string

definition text_completion :: "string \<Rightarrow> string \<Rightarrow> string \<Rightarrow> completion" where
  "text_completion ident model content =
     \<lparr>cp_id = ident, cp_object = ''chat.completion'', cp_model = JStr model,
      cp_message = \<lparr>cm_role = ''assistant'', cm_content = JStr content, cm_function_call = None\<rparr>,
      cp_finish_reason = ''stop''\<rparr>"

definition function_call_completion ::
  "exec_sync \<Rightarrow> json_stringify \<Rightarrow> string \<Rightarrow> invocation \<Rightarrow> completion"
where
  "function_call_completion execSync stringify model call =
     (let command = params_command (inv_arguments call)
      in if inv_name call = ''Bash'' \<and> truthy command
         then (case execSync command of
                 Inr cmdOutput \<Rightarrow> text_completion ''ollama-cmd-'' model (output_text command cmdOutput)
               | Inl err \<Rightarrow> text_completion ''ollama-cmd-error-'' model (error_text command err))
         else \<lparr>cp_id = ''ollama-fc-'', cp_object = ''chat.completion'', cp_model = JStr model,
               cp_message = \<lparr>cm_role = ''assistant'', cm_content = JNull,
                              cm_function_call =
                                Some (inv_name call, stringify (inv_arguments call))\<rparr>,
               cp_finish_reason = ''function_call''\<rparr>)"

definition nonstreaming_turn ::
  "json_parse \<Rightarrow> exec_sync \<Rightarrow> json_stringify \<Rightarrow> string \<Rightarrow> string list option
     \<Rightarrow> (error + completion) option"
where
  \<comment> \<open>\<^verbatim>\<open>getCompletion\<close> without \<^verbatim>\<open>opts.stream\<close> on the Ollama path, from the response
      stream on\<close>
  "nonstreaming_turn parse execSync stringify model stream =
     (case processOllamaStream parse stream of
        None \<Rightarrow> None
      | Some (Inl e) \<Rightarrow> Some (Inl e)
      | Some (Inr items) \<Rightarrow>
          Some (Inr (case recover_nonstreaming parse (accumulate items) of
                       Some call \<Rightarrow> function_call_completion execSync stringify model call
                     | None \<Rightarrow> text_completion ''ollama-'' model (accumulate items))))"

section \<open>Notions the properties use\<close>

definition lines_text :: "string list \<Rightarrow> string" where
  \<comment> \<open>the text of a list of lines, each ended by a newline\<close>
  "lines_text ls = concat (map (\<lambda>l. l @ [nl]) ls)"

fun ollama_frames :: "json_parse \<Rightarrow> bool \<Rightarrow> chunk list \<Rightarrow> string list \<Rightarrow> bool \<times> chunk list" where
  \<comment> \<open>the chunks of a list of trimmed lines, taken in order\<close>
  "ollama_frames parse isFirstChunk out [] = (isFirstChunk, out)"
| "ollama_frames parse isFirstChunk out (line # lines) =
     ollama_frames parse (isFirstChunk \<and> ollama_frame parse isFirstChunk line = [])
       (out @ ollama_frame parse isFirstChunk line) lines"

definition message_content :: "jsval \<Rightarrow> jsval" where
  \<comment> \<open>the \<^verbatim>\<open>message.content\<close> field of a parsed frame, \<open>JUndefined\<close> when it is missing\<close>
  "message_content data =
     (case get_prop data ''message'' of
        None \<Rightarrow> JUndefined
      | Some msg \<Rightarrow> (case get_prop msg ''content'' of None \<Rightarrow> JUndefined | Some c \<Rightarrow> c))"

definition carries_content :: "json_parse \<Rightarrow> string \<Rightarrow> string \<Rightarrow> bool" where
  \<comment> \<open>\<open>l\<close> is a line of valid JSON whose \<^verbatim>\<open>message.content\<close> is the string \<open>c\<close>\<close>
  "carries_content parse l c =
     (nl \<notin> set l \<and> trim l \<noteq> []
      \<and> (case parse (trim l) of None \<Rightarrow> False | Some data \<Rightarrow> message_content data = JStr c))"

definition frame_done :: "json_parse \<Rightarrow> string \<Rightarrow> bool" where
  \<comment> \<open>\<open>l\<close> is a line of valid JSON whose \<^verbatim>\<open>done\<close> is truthy\<close>
  "frame_done parse l =
     (case parse (trim l) of
        None \<Rightarrow> False
      | Some data \<Rightarrow> (case get_prop data ''done'' of None \<Rightarrow> False | Some d \<Rightarrow> truthy d))"

definition final_frame :: "json_parse \<Rightarrow> string \<Rightarrow> string \<Rightarrow> bool" where
  \<comment> \<open>\<open>l\<close> is a line of valid JSON with \<^verbatim>\<open>done: true\<close>, whose \<^verbatim>\<open>message.content\<close> is the
      string \<open>c\<close>, or is missing or \<^verbatim>\<open>null\<close> with \<open>c\<close> empty\<close>
  "final_frame parse l c =
     (nl \<notin> set l \<and> trim l \<noteq> []
      \<and> (case parse (trim l) of
           None \<Rightarrow> False
         | Some data \<Rightarrow>
             get_prop data ''done'' = Some (JBool True)
             \<and> (message_content data = JStr c
                \<or> (message_content data = JUndefined \<or> message_content data = JNull) \<and> c = [])))"

definition chunk_content :: "chunk \<Rightarrow> jsval" where
  "chunk_content c = d_content (ch_delta c)"

definition chunk_text :: "chunk \<Rightarrow> string" where
  \<comment> \<open>the content of a chunk as the consumer appends it to a string\<close>
  "chunk_text c = js_string (chunk_content c)"

definition item_text :: "content_item \<Rightarrow> string" where
  "item_text item = js_string (it_content item)"






fun built_chunk :: "emitted \<Rightarrow> chunk option" where
  "built_chunk (Built c) = Some c"
| "built_chunk (Parsed v) = None"

definition json_sample :: json_parse where
  \<comment> \<open>what \<^verbatim>\<open>JSON.parse\<close> returns for the frames the examples use\<close>
  \<open>json_sample =
     map_of
       [(''{"message":{"content":"Hel"},"done":false}'',
           JObj [(''message'', JObj [(''content'', JStr ''Hel'')]), (''done'', JBool False)]),
        (''{"message":{"content":"lo"},"done":false}'',
           JObj [(''message'', JObj [(''content'', JStr ''lo'')]), (''done'', JBool False)]),
        (''{"message":{"content":""},"done":true}'',
           JObj [(''message'', JObj [(''content'', JStr [])]), (''done'', JBool True)]),
        (''{"done":true}'', JObj [(''done'', JBool True)]),
        (''{"message":{"content":"lo"},"done":true}'',
           JObj [(''message'', JObj [(''content'', JStr ''lo'')]), (''done'', JBool True)]),
        (''{"command":"ls"}'', JObj [(''command'', JStr ''ls'')])]\<close>

section \<open>The line loops on well-formed input\<close>

lemma lines_text_simps [simp]:
  "lines_text [] = []"
  "lines_text (l # ls) = l @ nl # lines_text ls"
  by (simp_all add: lines_text_def)

lemma lines_text_append: "lines_text (xs @ ys) = lines_text xs @ lines_text ys"
  by (simp add: lines_text_def)

lemma indexOf_None: "nl \<notin> set s \<Longrightarrow> indexOf s nl = None"
  by (induction s) auto

lemma indexOf_first: "nl \<notin> set l \<Longrightarrow> indexOf (l @ nl # rest) nl = Some (length l)"
  by (induction l) auto

lemma first_newline_unique:
  assumes "l @ nl # x = l' @ nl # y" and "nl \<notin> set l" and "nl \<notin> set l'"
  shows "l = l' \<and> x = y"
  using assms
proof (induction l arbitrary: l')
  case Nil
  then show ?case by (cases l') auto
next
  case (Cons a l)
  then show ?case by (cases l') auto
qed

text \<open>Every text is a list of newline-free lines followed by a newline-free rest.\<close>

lemma decompose_lines:
  "\<exists>ls r. t = lines_text ls @ r \<and> (\<forall>l \<in> set ls. nl \<notin> set l) \<and> nl \<notin> set r"
proof (induction t)
  case Nil
  show ?case by (rule exI [of _ "[]"]) simp
next
  case (Cons a t)
  then obtain ls r where t: "t = lines_text ls @ r" "\<forall>l \<in> set ls. nl \<notin> set l" "nl \<notin> set r"
    by blast
  show ?case
  proof (cases "a = nl")
    case True
    with t show ?thesis
      by (intro exI [of _ "[] # ls"] exI [of _ r]) simp
  next
    case False
    show ?thesis
    proof (cases ls)
      case Nil
      with t False show ?thesis
        by (intro exI [of _ "[]"] exI [of _ "a # r"]) simp
    next
      case (Cons l ls')
      with t False show ?thesis
        by (intro exI [of _ "(a # l) # ls'"] exI [of _ r]) simp
    qed
  qed
qed

lemma lines_prefix_unique:
  assumes "lines_text ls1 @ r1 @ rest = lines_text ls @ r"
    and "\<forall>l \<in> set ls1. nl \<notin> set l" and "\<forall>l \<in> set ls. nl \<notin> set l" and "nl \<notin> set r"
  shows "\<exists>ls2. ls = ls1 @ ls2 \<and> r1 @ rest = lines_text ls2 @ r"
  using assms
proof (induction ls1 arbitrary: ls)
  case Nil
  then show ?case by simp
next
  case (Cons l1 ls1)
  show ?case
  proof (cases ls)
    case Nil
    with Cons.prems have "l1 @ nl # (lines_text ls1 @ r1 @ rest) = r" by simp
    then have "nl \<in> set r" by (metis in_set_conv_decomp)
    with Cons.prems show ?thesis by simp
  next
    case (Cons l ls')
    with Cons.prems have "l1 @ nl # (lines_text ls1 @ r1 @ rest) = l @ nl # (lines_text ls' @ r)"
      by simp
    moreover have "nl \<notin> set l1" "nl \<notin> set l" using Cons.prems Cons by auto
    ultimately have e: "l1 = l" "lines_text ls1 @ r1 @ rest = lines_text ls' @ r"
      using first_newline_unique by blast+
    from Cons.IH [OF e(2)] Cons.prems Cons
    obtain ls2 where "ls' = ls1 @ ls2" "r1 @ rest = lines_text ls2 @ r" by auto
    with e Cons show ?thesis by simp
  qed
qed

subsection \<open>\<^verbatim>\<open>processOllamaStream\<close>\<close>

lemma client_lines_step:
  assumes "nl \<notin> set l" and "trim l \<noteq> []"
  shows "client_lines parse (l @ nl # rest) (Some (length l)) out =
           client_lines parse rest (indexOf rest nl) (out @ client_frame parse (trim l))"
  using assms by (subst client_lines.simps) simp

lemma client_lines_complete:
  assumes "\<forall>l \<in> set ls. nl \<notin> set l \<and> trim l \<noteq> []" and "nl \<notin> set r"
  shows "client_lines parse (lines_text ls @ r) (indexOf (lines_text ls @ r) nl) out =
           Some (r, out @ concat (map (\<lambda>l. client_frame parse (trim l)) ls))"
  using assms
proof (induction ls arbitrary: out)
  case Nil
  then show ?case by (subst client_lines.simps) (simp add: indexOf_None)
next
  case (Cons l ls)
  then show ?case by (simp add: indexOf_first client_lines_step)
qed

text \<open>
  However the text is cut into reads, the processor yields the frames of its lines in
  order, as long as no line is blank; what follows the last newline is dropped.
\<close>

lemma client_reads_complete:
  assumes "nl \<notin> set b" and "b @ concat reads = lines_text ls @ r"
    and "\<forall>l \<in> set ls. nl \<notin> set l \<and> trim l \<noteq> []" and "nl \<notin> set r"
  shows "client_reads parse reads b out =
           Some (out @ concat (map (\<lambda>l. client_frame parse (trim l)) ls))"
  using assms
proof (induction reads arbitrary: b out ls)
  case Nil
  then have "ls = []" by (cases ls) auto
  then show ?case by simp
next
  case (Cons c cs)
  obtain ls1 r1 where d: "b @ c = lines_text ls1 @ r1" "\<forall>l \<in> set ls1. nl \<notin> set l" "nl \<notin> set r1"
    using decompose_lines by blast
  from Cons.prems(2) d(1) have "lines_text ls1 @ r1 @ concat cs = lines_text ls @ r"
    by (metis append.assoc concat.simps(2))
  from lines_prefix_unique [OF this d(2)] Cons.prems
  obtain ls2 where s: "ls = ls1 @ ls2" "r1 @ concat cs = lines_text ls2 @ r" by blast
  have l1: "\<forall>l \<in> set ls1. nl \<notin> set l \<and> trim l \<noteq> []" using Cons.prems(3) s(1) by simp
  have l2: "\<forall>l \<in> set ls2. nl \<notin> set l \<and> trim l \<noteq> []" using Cons.prems(3) s(1) by simp
  have "client_lines parse (b @ c) (indexOf (b @ c) nl) out =
          Some (r1, out @ concat (map (\<lambda>l. client_frame parse (trim l)) ls1))"
    unfolding d(1) by (rule client_lines_complete [OF l1 d(3)])
  then show ?case
    using Cons.IH [OF d(3) s(2) l2 Cons.prems(4)] s(1) by simp
qed

subsection \<open>\<^verbatim>\<open>createOllamaStreamProcessor\<close> and the Ollama branch of \<^verbatim>\<open>createStreamProcessor\<close>\<close>

lemma ollama_lines_step:
  assumes "nl \<notin> set l" and "trim l \<noteq> []"
  shows "ollama_lines parse (l @ nl # rest) (Some (length l)) isFirst out =
           ollama_lines parse rest (indexOf rest nl)
             (isFirst \<and> ollama_frame parse isFirst (trim l) = [])
             (out @ ollama_frame parse isFirst (trim l))"
  using assms by (subst ollama_lines.simps) simp

lemma ollama_lines_complete:
  assumes "\<forall>l \<in> set ls. nl \<notin> set l \<and> trim l \<noteq> []" and "nl \<notin> set r"
  shows "ollama_lines parse (lines_text ls @ r) (indexOf (lines_text ls @ r) nl) isFirst out =
           Some (r, ollama_frames parse isFirst out (map trim ls))"
  using assms
proof (induction ls arbitrary: isFirst out)
  case Nil
  then show ?case by (subst ollama_lines.simps) (simp add: indexOf_None)
next
  case (Cons l ls)
  then show ?case by (simp add: indexOf_first ollama_lines_step)
qed

lemma ollama_frames_append:
  "ollama_frames parse isFirst out (xs @ ys) =
     ollama_frames parse (fst (ollama_frames parse isFirst out xs))
       (snd (ollama_frames parse isFirst out xs)) ys"
  by (induction xs arbitrary: isFirst out) simp_all

lemma ollama_reads_complete:
  assumes "nl \<notin> set b" and "b @ concat reads = lines_text ls @ r"
    and "\<forall>l \<in> set ls. nl \<notin> set l \<and> trim l \<noteq> []" and "nl \<notin> set r"
  shows "ollama_reads parse reads b isFirst out =
           Some (snd (ollama_frames parse isFirst out (map trim ls)))"
  using assms
proof (induction reads arbitrary: b isFirst out ls)
  case Nil
  then have "ls = []" by (cases ls) auto
  then show ?case by simp
next
  case (Cons c cs)
  obtain ls1 r1 where d: "b @ c = lines_text ls1 @ r1" "\<forall>l \<in> set ls1. nl \<notin> set l" "nl \<notin> set r1"
    using decompose_lines by blast
  from Cons.prems(2) d(1) have "lines_text ls1 @ r1 @ concat cs = lines_text ls @ r"
    by (metis append.assoc concat.simps(2))
  from lines_prefix_unique [OF this d(2)] Cons.prems
  obtain ls2 where s: "ls = ls1 @ ls2" "r1 @ concat cs = lines_text ls2 @ r" by blast
  have l1: "\<forall>l \<in> set ls1. nl \<notin> set l \<and> trim l \<noteq> []" using Cons.prems(3) s(1) by simp
  have l2: "\<forall>l \<in> set ls2. nl \<notin> set l \<and> trim l \<noteq> []" using Cons.prems(3) s(1) by simp
  have "ollama_lines parse (b @ c) (indexOf (b @ c) nl) isFirst out =
          Some (r1, ollama_frames parse isFirst out (map trim ls1))"
    unfolding d(1) by (rule ollama_lines_complete [OF l1 d(3)])
  then show ?case
    using Cons.IH [OF d(3) s(2) l2 Cons.prems(4)] s(1)
    by (simp add: ollama_frames_append split: prod.splits)
qed

section \<open>The line loops on a blank line\<close>

text \<open>
  When a line is blank the loops \<^verbatim>\<open>continue\<close> before \<open>lineEnd\<close> is set for the next
  line, and go on cutting the buffer at the old index. With the index 0 and an empty
  buffer nothing changes any more: the loop never returns.
\<close>

lemma client_lines_stuck: "client_lines parse [] (Some 0) out = None"
proof (cases "client_lines parse [] (Some 0) out")
  case None
  then show ?thesis .
next
  case (Some res)
  have "\<not> (([]::string) = [] \<and> Some (0::nat) = Some 0)"
  proof (rule client_lines.raw_induct
      [where P = "\<lambda>parse b e out res. \<not> (b = [] \<and> e = Some 0)", OF _ Some])
    fix f parse buffer lineEnd out res
    assume ih: "\<And>parse b e out res. f parse b e out = Some res \<Longrightarrow> \<not> (b = [] \<and> e = Some 0)"
      and step: "(case lineEnd of
          None \<Rightarrow> Some (buffer, out)
        | Some e \<Rightarrow>
            if trim (take e buffer) = []
            then f parse (drop (e + 1) buffer) lineEnd out
            else f parse (drop (e + 1) buffer) (indexOf (drop (e + 1) buffer) nl)
                   (out @ client_frame parse (trim (take e buffer)))) = Some res"
    show "\<not> (buffer = [] \<and> lineEnd = Some 0)"
    proof
      assume "buffer = [] \<and> lineEnd = Some 0"
      with step have "f parse [] (Some 0) out = Some res" by (simp add: trim_def)
      from ih [OF this] show False by simp
    qed
  qed
  then show ?thesis by simp
qed

lemma client_lines_blank_first: "client_lines parse b (Some 0) out = None"
proof (induction b)
  case Nil
  show ?case by (rule client_lines_stuck)
next
  case (Cons x xs)
  then show ?case by (subst client_lines.simps) (simp add: trim_def)
qed

lemma ollama_lines_stuck: "ollama_lines parse [] (Some 0) isFirst out = None"
proof (cases "ollama_lines parse [] (Some 0) isFirst out")
  case None
  then show ?thesis .
next
  case (Some res)
  have "\<not> (([]::string) = [] \<and> Some (0::nat) = Some 0)"
  proof (rule ollama_lines.raw_induct
      [where P = "\<lambda>parse b e isFirst out res. \<not> (b = [] \<and> e = Some 0)", OF _ Some])
    fix f parse buffer lineEnd isFirstChunk out res
    assume ih: "\<And>parse b e isFirst out res.
          f parse b e isFirst out = Some res \<Longrightarrow> \<not> (b = [] \<and> e = Some 0)"
      and step: "(case lineEnd of
          None \<Rightarrow> Some (buffer, isFirstChunk, out)
        | Some e \<Rightarrow>
            if trim (take e buffer) = []
            then f parse (drop (e + 1) buffer) lineEnd isFirstChunk out
            else f parse (drop (e + 1) buffer) (indexOf (drop (e + 1) buffer) nl)
                   (isFirstChunk \<and> ollama_frame parse isFirstChunk (trim (take e buffer)) = [])
                   (out @ ollama_frame parse isFirstChunk (trim (take e buffer)))) = Some res"
    show "\<not> (buffer = [] \<and> lineEnd = Some 0)"
    proof
      assume "buffer = [] \<and> lineEnd = Some 0"
      with step have "f parse [] (Some 0) isFirstChunk out = Some res" by (simp add: trim_def)
      from ih [OF this] show False by simp
    qed
  qed
  then show ?thesis by simp
qed

lemma ollama_lines_blank_first: "ollama_lines parse b (Some 0) isFirst out = None"
proof (induction b)
  case Nil
  show ?case by (rule ollama_lines_stuck)
next
  case (Cons x xs)
  then show ?case by (subst ollama_lines.simps) (simp add: trim_def)
qed

text \<open>An empty line after any number of well-formed lines makes the loop hang.\<close>

lemma client_lines_empty_line:
  assumes "\<forall>l \<in> set ls. nl \<notin> set l \<and> trim l \<noteq> []"
  shows "client_lines parse (lines_text ls @ nl # rest) (indexOf (lines_text ls @ nl # rest) nl) out
           = None"
  using assms
proof (induction ls arbitrary: out)
  case Nil
  show ?case by (simp add: client_lines_blank_first)
next
  case (Cons l ls)
  then show ?case by (simp add: indexOf_first client_lines_step)
qed

lemma ollama_lines_empty_line:
  assumes "\<forall>l \<in> set ls. nl \<notin> set l \<and> trim l \<noteq> []"
  shows "ollama_lines parse (lines_text ls @ nl # rest) (indexOf (lines_text ls @ nl # rest) nl)
           isFirst out = None"
  using assms
proof (induction ls arbitrary: isFirst out)
  case Nil
  show ?case by (simp add: ollama_lines_blank_first)
next
  case (Cons l ls)
  then show ?case by (simp add: indexOf_first ollama_lines_step)
qed

section \<open>Properties\<close>

subsection \<open>The system prompt\<close>

lemma modifiedMessages_custom:
  assumes "truthy (customSystemPrompt modelsList modelName)"
  shows "modifiedMessages modelsList modelName messages =
           \<lparr>m_role = ''system'', m_content = customSystemPrompt modelsList modelName\<rparr>
             # filter (\<lambda>msg. m_role msg \<noteq> ''system'') messages"
  using assms by (simp add: modifiedMessages_def)

lemma modifiedMessages_plain:
  assumes "\<not> truthy (customSystemPrompt modelsList modelName)"
  shows "modifiedMessages modelsList modelName messages = messages"
  using assms by (simp add: modifiedMessages_def)

text \<open>
  C9, as stated, fails: the list put in the request body is not the list
  \<^verbatim>\<open>getCompletion\<close> builds, since \<^verbatim>\<open>sendOllamaRequest\<close> drops every message whose content
  is falsy. An assistant message with \<^verbatim>\<open>null\<close> content is neither sent with a custom
  system prompt nor without one.
\<close>

theorem C9_counterexample:
  "upstreamMessages [(''ollama'', [\<lparr>mi_model = ''qwq'', mi_customSystemPrompt = JStr ''Be brief.''\<rparr>])]
       ''qwq''
       [\<lparr>m_role = ''system'', m_content = JStr ''Old prompt''\<rparr>,
        \<lparr>m_role = ''user'', m_content = JStr ''hi''\<rparr>,
        \<lparr>m_role = ''assistant'', m_content = JNull\<rparr>]
     \<noteq> [\<lparr>m_role = ''system'', m_content = JStr ''Be brief.''\<rparr>,
         \<lparr>m_role = ''user'', m_content = JStr ''hi''\<rparr>,
         \<lparr>m_role = ''assistant'', m_content = JNull\<rparr>]
   \<and> upstreamMessages [] ''qwq''
       [\<lparr>m_role = ''user'', m_content = JStr ''hi''\<rparr>,
        \<lparr>m_role = ''assistant'', m_content = JNull\<rparr>]
     \<noteq> [\<lparr>m_role = ''user'', m_content = JStr ''hi''\<rparr>,
         \<lparr>m_role = ''assistant'', m_content = JNull\<rparr>]"
  by (simp add: upstreamMessages_def filteredMessages_def modifiedMessages_def
      customSystemPrompt_def)

text \<open>
  C9, amended: with a custom system prompt, the list sent upstream is the original list
  with every system message removed, one system message with the custom prompt put in
  front, and every message of falsy content dropped; the non-system messages that are
  sent are those of the original list with truthy content, unchanged and in their order,
  and the only system message sent is the custom one. Without a custom system prompt the
  list sent is the original list without its messages of falsy content.
\<close>

theorem C9_upstream_messages:
  "(truthy (customSystemPrompt modelsList modelName) \<longrightarrow>
      upstreamMessages modelsList modelName messages =
        \<lparr>m_role = ''system'', m_content = customSystemPrompt modelsList modelName\<rparr>
          # filter (\<lambda>m. truthy (m_content m)) (filter (\<lambda>m. m_role m \<noteq> ''system'') messages)
      \<and> filter (\<lambda>m. m_role m \<noteq> ''system'') (upstreamMessages modelsList modelName messages) =
          filter (\<lambda>m. m_role m \<noteq> ''system'' \<and> truthy (m_content m)) messages
      \<and> filter (\<lambda>m. m_role m = ''system'') (upstreamMessages modelsList modelName messages) =
          [\<lparr>m_role = ''system'', m_content = customSystemPrompt modelsList modelName\<rparr>])
   \<and> (\<not> truthy (customSystemPrompt modelsList modelName) \<longrightarrow>
      upstreamMessages modelsList modelName messages =
        filter (\<lambda>m. truthy (m_content m)) messages)"
proof (intro conjI impI)
  assume t: "truthy (customSystemPrompt modelsList modelName)"
  show eq: "upstreamMessages modelsList modelName messages =
        \<lparr>m_role = ''system'', m_content = customSystemPrompt modelsList modelName\<rparr>
          # filter (\<lambda>m. truthy (m_content m)) (filter (\<lambda>m. m_role m \<noteq> ''system'') messages)"
    using t by (simp add: upstreamMessages_def filteredMessages_def modifiedMessages_custom)
  show "filter (\<lambda>m. m_role m \<noteq> ''system'') (upstreamMessages modelsList modelName messages) =
          filter (\<lambda>m. m_role m \<noteq> ''system'' \<and> truthy (m_content m)) messages"
    unfolding eq by (auto intro: filter_cong)
  have "filter (\<lambda>m. m_role m = ''system'')
          (filter (\<lambda>m. truthy (m_content m)) (filter (\<lambda>m. m_role m \<noteq> ''system'') messages)) = []"
    by (simp add: filter_empty_conv)
  then show "filter (\<lambda>m. m_role m = ''system'') (upstreamMessages modelsList modelName messages) =
          [\<lparr>m_role = ''system'', m_content = customSystemPrompt modelsList modelName\<rparr>]"
    unfolding eq by simp
next
  assume "\<not> truthy (customSystemPrompt modelsList modelName)"
  then show "upstreamMessages modelsList modelName messages =
        filter (\<lambda>m. truthy (m_content m)) messages"
    by (simp add: upstreamMessages_def filteredMessages_def modifiedMessages_plain)
qed

theorem C9_upstream_messages_witness:
  "truthy (customSystemPrompt [(''ollama'', [\<lparr>mi_model = ''qwq'', mi_customSystemPrompt = JStr ''Be brief.''\<rparr>])] ''qwq'')
   \<and> upstreamMessages [(''ollama'', [\<lparr>mi_model = ''qwq'', mi_customSystemPrompt = JStr ''Be brief.''\<rparr>])]
       ''qwq''
       [\<lparr>m_role = ''system'', m_content = JStr ''Old prompt''\<rparr>,
        \<lparr>m_role = ''user'', m_content = JStr ''hi''\<rparr>,
        \<lparr>m_role = ''assistant'', m_content = JNull\<rparr>]
     = [\<lparr>m_role = ''system'', m_content = JStr ''Be brief.''\<rparr>,
        \<lparr>m_role = ''user'', m_content = JStr ''hi''\<rparr>]
   \<and> \<not> truthy (customSystemPrompt [] ''qwq'')
   \<and> upstreamMessages [] ''qwq''
       [\<lparr>m_role = ''user'', m_content = JStr ''hi''\<rparr>,
        \<lparr>m_role = ''assistant'', m_content = JNull\<rparr>]
     = [\<lparr>m_role = ''user'', m_content = JStr ''hi''\<rparr>]"
  using C9_upstream_messages
    [of "[(''ollama'', [\<lparr>mi_model = ''qwq'', mi_customSystemPrompt = JStr ''Be brief.''\<rparr>])]" "''qwq''"
        "[\<lparr>m_role = ''system'', m_content = JStr ''Old prompt''\<rparr>,
          \<lparr>m_role = ''user'', m_content = JStr ''hi''\<rparr>,
          \<lparr>m_role = ''assistant'', m_content = JNull\<rparr>]"]
    C9_upstream_messages
    [of "[]" "''qwq''"
        "[\<lparr>m_role = ''user'', m_content = JStr ''hi''\<rparr>,
          \<lparr>m_role = ''assistant'', m_content = JNull\<rparr>]"]
  by (simp add: customSystemPrompt_def)

subsection \<open>A Bash command that fails\<close>




section \<open>What a frame yields\<close>

lemma content_is_object:
  assumes "message_content data = JStr c"
  shows "\<exists>kvs mkvs. data = JObj kvs \<and> map_of kvs ''message'' = Some (JObj mkvs)
           \<and> map_of mkvs ''content'' = Some (JStr c)"
proof -
  obtain kvs where d: "data = JObj kvs"
    using assms by (cases data) (simp_all add: message_content_def)
  obtain msg where m: "map_of kvs ''message'' = Some msg"
    using assms d by (cases "map_of kvs ''message''") (simp_all add: message_content_def)
  obtain mkvs where k: "msg = JObj mkvs"
    using assms d m by (cases msg) (simp_all add: message_content_def)
  have "map_of mkvs ''content'' = Some (JStr c)"
    using assms d m k by (cases "map_of mkvs ''content''") (simp_all add: message_content_def)
  with d m k show ?thesis by blast
qed

lemma client_frame_content:
  assumes "parse line = Some data" and "message_content data = JStr c"
  shows "map it_content (client_frame parse line) = (if c = [] then [] else [JStr c])"
proof -
  from content_is_object [OF assms(2)] obtain kvs mkvs where
    "data = JObj kvs" "map_of kvs ''message'' = Some (JObj mkvs)"
    "map_of mkvs ''content'' = Some (JStr c)" by blast
  with assms(1) show ?thesis by (simp add: client_frame_def)
qed

lemma ollama_frame_content:
  assumes "parse line = Some data" and "message_content data = JStr c"
  shows "map chunk_content (ollama_frame parse isFirst line) = (if c = [] then [] else [JStr c])"
proof -
  from content_is_object [OF assms(2)] obtain kvs mkvs where
    "data = JObj kvs" "map_of kvs ''message'' = Some (JObj mkvs)"
    "map_of mkvs ''content'' = Some (JStr c)" by blast
  with assms(1) show ?thesis by (simp add: ollama_frame_def ollama_chunk_def chunk_content_def)
qed

lemma no_content_cases:
  assumes "message_content data = JUndefined \<or> message_content data = JNull
           \<or> message_content data = JStr []"
  shows "(case get_prop data ''message'' of
            None \<Rightarrow> True
          | Some msg \<Rightarrow> \<not> truthy msg \<or> (case get_prop msg ''content'' of None \<Rightarrow> True | Some c \<Rightarrow> \<not> truthy c))"
  using assms
  by (auto simp: message_content_def split: option.splits)

lemma client_frame_no_content:
  assumes "parse line = Some data"
    and "message_content data = JUndefined \<or> message_content data = JNull
         \<or> message_content data = JStr []"
  shows "client_frame parse line = []"
  using assms(1) no_content_cases [OF assms(2)]
  by (auto simp: client_frame_def split: option.splits)

lemma ollama_frame_no_content:
  assumes "parse line = Some data"
    and "message_content data = JUndefined \<or> message_content data = JNull
         \<or> message_content data = JStr []"
  shows "ollama_frame parse isFirst line = []"
  using assms(1) no_content_cases [OF assms(2)]
  by (auto simp: ollama_frame_def split: option.splits)

lemma ollama_frame_unparsed: "parse line = None \<Longrightarrow> ollama_frame parse isFirst line = []"
  by (simp add: ollama_frame_def)

lemma client_frame_unparsed: "parse line = None \<Longrightarrow> client_frame parse line = []"
  by (simp add: client_frame_def)

text \<open>The contents of the chunks of a list of lines do not depend on \<open>isFirstChunk\<close>.\<close>

lemma ollama_frames_contents:
  "map chunk_content (snd (ollama_frames parse isFirst out ls)) =
     map chunk_content out
       @ concat (map (\<lambda>l. map chunk_content (ollama_frame parse True l)) ls)"
proof (induction ls arbitrary: isFirst out)
  case Nil
  show ?case by simp
next
  case (Cons l ls)
  have "map chunk_content (ollama_frame parse isFirst l) =
        map chunk_content (ollama_frame parse True l)"
    by (auto simp: ollama_frame_def ollama_chunk_def chunk_content_def split: option.splits)
  with Cons show ?case by simp
qed

section \<open>Round trip\<close>

lemma carries_content_text:
  assumes "carries_content parse l c"
  shows "concat (map item_text (client_frame parse (trim l))) = c"
    and "concat (map chunk_text (ollama_frame parse isFirst (trim l))) = c"
    and "map chunk_content (ollama_frame parse isFirst (trim l)) = (if c = [] then [] else [JStr c])"
proof -
  from assms obtain data where d: "parse (trim l) = Some data" "message_content data = JStr c"
    by (auto simp: carries_content_def split: option.splits)
  have "map item_text (client_frame parse (trim l)) = map js_string (map it_content (client_frame parse (trim l)))"
    by (simp add: item_text_def [abs_def])
  then show "concat (map item_text (client_frame parse (trim l))) = c"
    by (simp add: client_frame_content [of parse "trim l", OF d])
  have "map chunk_text (ollama_frame parse isFirst (trim l)) =
          map js_string (map chunk_content (ollama_frame parse isFirst (trim l)))"
    by (simp add: chunk_text_def [abs_def])
  then show "concat (map chunk_text (ollama_frame parse isFirst (trim l))) = c"
    by (simp add: ollama_frame_content [of parse "trim l", OF d])
  show "map chunk_content (ollama_frame parse isFirst (trim l)) = (if c = [] then [] else [JStr c])"
    by (rule ollama_frame_content [of parse "trim l", OF d])
qed

lemma final_frame_text:
  assumes "final_frame parse l c"
  shows "concat (map item_text (client_frame parse (trim l))) = c"
    and "concat (map chunk_text (ollama_frame parse isFirst (trim l))) = c"
proof -
  from assms obtain data where d: "parse (trim l) = Some data"
    and m: "message_content data = JStr c
            \<or> (message_content data = JUndefined \<or> message_content data = JNull) \<and> c = []"
    and w: "nl \<notin> set l" "trim l \<noteq> []"
    by (auto simp: final_frame_def split: option.splits)
  from m show "concat (map item_text (client_frame parse (trim l))) = c"
  proof
    assume "message_content data = JStr c"
    with d w have "carries_content parse l c" by (simp add: carries_content_def)
    then show ?thesis by (rule carries_content_text)
  next
    assume a: "(message_content data = JUndefined \<or> message_content data = JNull) \<and> c = []"
    then have "client_frame parse (trim l) = []"
      using client_frame_no_content [of parse "trim l", OF d] by blast
    with a show ?thesis by simp
  qed
  from m show "concat (map chunk_text (ollama_frame parse isFirst (trim l))) = c"
  proof
    assume "message_content data = JStr c"
    with d w have "carries_content parse l c" by (simp add: carries_content_def)
    then show ?thesis by (rule carries_content_text)
  next
    assume a: "(message_content data = JUndefined \<or> message_content data = JNull) \<and> c = []"
    then have "ollama_frame parse isFirst (trim l) = []"
      using ollama_frame_no_content [of parse "trim l", OF d] by blast
    with a show ?thesis by simp
  qed
qed

lemma well_formed_lines:
  assumes "list_all2 (carries_content parse) ls cs"
  shows "\<forall>l \<in> set ls. nl \<notin> set l \<and> trim l \<noteq> []"
  using assms by (induction rule: list_all2_induct) (auto simp: carries_content_def)

lemma client_frames_text:
  assumes "list_all2 (carries_content parse) ls cs"
  shows "concat (map item_text (concat (map (\<lambda>l. client_frame parse (trim l)) ls))) = concat cs"
  using assms by (induction rule: list_all2_induct) (simp_all add: carries_content_text)

lemma ollama_frames_text:
  "concat (map chunk_text (snd (ollama_frames parse isFirst out ls))) =
     concat (map chunk_text out)
       @ concat (map (\<lambda>l. concat (map chunk_text (ollama_frame parse True l))) ls)"
proof (induction ls arbitrary: isFirst out)
  case Nil
  show ?case by simp
next
  case (Cons l ls)
  have "map chunk_text (ollama_frame parse isFirst l) = map chunk_text (ollama_frame parse True l)"
    by (auto simp: ollama_frame_def ollama_chunk_def chunk_text_def chunk_content_def
        split: option.splits)
  with Cons show ?case by simp
qed

lemma ollama_lines_text:
  assumes "list_all2 (carries_content parse) ls cs"
  shows "concat (map (\<lambda>l. concat (map chunk_text (ollama_frame parse True l))) (map trim ls)) = concat cs"
  using assms by (induction rule: list_all2_induct) (simp_all add: carries_content_text)

text \<open>
  The round trip of a text whose lines all end in a newline: for N lines that each carry
  a \<^verbatim>\<open>message.content\<close> string and a final line with \<^verbatim>\<open>done: true\<close>, the contents of what
  \<^verbatim>\<open>processOllamaStream\<close> and \<^verbatim>\<open>createOllamaStreamProcessor\<close> yield, put together, are
  the contents of the lines put together in their order, however the reads cut the text.
\<close>

lemma round_trip_terminated:
  assumes "list_all2 (carries_content parse) ls cs"
    and "final_frame parse final cf"
    and "concat reads = lines_text (ls @ [final])"
  shows "\<exists>items chunks.
           processOllamaStream parse (Some reads) = Some (Inr items)
           \<and> concat (map item_text items) = concat cs @ cf
           \<and> createOllamaStreamProcessor parse (Some reads) = Some (Inr chunks)
           \<and> concat (map chunk_text chunks) = concat cs @ cf"
proof -
  let ?lines = "ls @ [final]"
  have wf: "\<forall>l \<in> set ?lines. nl \<notin> set l \<and> trim l \<noteq> []"
    using well_formed_lines [OF assms(1)] assms(2) by (auto simp: final_frame_def)
  have t: "[] @ concat reads = lines_text ?lines @ []" using assms(3) by simp
  have c: "client_reads parse reads [] [] =
             Some ([] @ concat (map (\<lambda>l. client_frame parse (trim l)) ?lines))"
    by (rule client_reads_complete [OF _ t wf]) simp_all
  have "ollama_reads parse reads [] True [] =
             Some (snd (ollama_frames parse True [] (map trim ?lines)))"
    by (rule ollama_reads_complete [OF _ t wf]) simp_all
  moreover have "concat (map item_text (concat (map (\<lambda>l. client_frame parse (trim l)) ?lines))) =
          concat cs @ cf"
    using client_frames_text [OF assms(1)] final_frame_text(1) [OF assms(2)] by simp
  moreover have "concat (map chunk_text (snd (ollama_frames parse True [] (map trim ?lines)))) =
          concat cs @ cf"
    using ollama_lines_text [OF assms(1)] final_frame_text(2) [OF assms(2)]
    by (simp add: ollama_frames_text)
  ultimately show ?thesis
    using c by (simp add: processOllamaStream_def createOllamaStreamProcessor_def)
qed

lemma round_trip_terminated_sample:
  \<open>list_all2 (carries_content json_sample)
     [''{"message":{"content":"Hel"},"done":false}'', ''{"message":{"content":"lo"},"done":false}'']
     [''Hel'', ''lo'']
   \<and> final_frame json_sample ''{"message":{"content":""},"done":true}'' []
   \<and> concat [''{"message":{"content":"Hel"},"done":false}\<newline>{"message":{"con'',
              ''tent":"lo"},"done":false}\<newline>{"message":{"content":""},"done":true}\<newline>'']
       = lines_text ([''{"message":{"content":"Hel"},"done":false}'',
                       ''{"message":{"content":"lo"},"done":false}'']
                      @ [''{"message":{"content":""},"done":true}''])
   \<and> (\<exists>items chunks.
         processOllamaStream json_sample
           (Some [''{"message":{"content":"Hel"},"done":false}\<newline>{"message":{"con'',
                  ''tent":"lo"},"done":false}\<newline>{"message":{"content":""},"done":true}\<newline>''])
           = Some (Inr items)
         \<and> concat (map item_text items) = ''Hello''
         \<and> createOllamaStreamProcessor json_sample
           (Some [''{"message":{"content":"Hel"},"done":false}\<newline>{"message":{"con'',
                  ''tent":"lo"},"done":false}\<newline>{"message":{"content":""},"done":true}\<newline>''])
           = Some (Inr chunks)
         \<and> concat (map chunk_text chunks) = ''Hello'')\<close>
proof -
  have a: \<open>list_all2 (carries_content json_sample)
     [''{"message":{"content":"Hel"},"done":false}'', ''{"message":{"content":"lo"},"done":false}'']
     [''Hel'', ''lo'']\<close>
    by (simp add: carries_content_def json_sample_def message_content_def trim_def
        is_space_def nl_def)
  have b: \<open>final_frame json_sample ''{"message":{"content":""},"done":true}'' []\<close>
    by (simp add: final_frame_def json_sample_def message_content_def trim_def
        is_space_def nl_def)
  have c: \<open>concat [''{"message":{"content":"Hel"},"done":false}\<newline>{"message":{"con'',
              ''tent":"lo"},"done":false}\<newline>{"message":{"content":""},"done":true}\<newline>'']
       = lines_text ([''{"message":{"content":"Hel"},"done":false}'',
                       ''{"message":{"content":"lo"},"done":false}'']
                      @ [''{"message":{"content":""},"done":true}''])\<close>
    by (simp add: nl_def)
  from round_trip_terminated [OF a b c] a b c show ?thesis by simp
qed

section \<open>A malformed line\<close>

text \<open>
  A malformed line that is not blank is skipped: \<^verbatim>\<open>JSON.parse\<close> throws, the error is
  caught, and \<open>lineEnd\<close> is set for the next line.
\<close>

lemma malformed_line_skipped:
  assumes "carries_content parse l1 c1" and "c1 \<noteq> []"
    and "carries_content parse l2 c2" and "c2 \<noteq> []"
    and "nl \<notin> set bad" and "trim bad \<noteq> []" and "parse (trim bad) = None"
    and "concat reads = lines_text [l1, bad, l2]"
  shows "\<exists>items chunks.
           processOllamaStream parse (Some reads) = Some (Inr items)
           \<and> map it_content items = [JStr c1, JStr c2]
           \<and> createOllamaStreamProcessor parse (Some reads) = Some (Inr chunks)
           \<and> map chunk_content chunks = [JStr c1, JStr c2]"
proof -
  let ?lines = "[l1, bad, l2]"
  have wf: "\<forall>l \<in> set ?lines. nl \<notin> set l \<and> trim l \<noteq> []"
    using assms by (auto simp: carries_content_def)
  have t: "[] @ concat reads = lines_text ?lines @ []" using assms(8) by simp
  from assms(1) obtain d1 where d1: "parse (trim l1) = Some d1" "message_content d1 = JStr c1"
    by (auto simp: carries_content_def split: option.splits)
  from assms(3) obtain d2 where d2: "parse (trim l2) = Some d2" "message_content d2 = JStr c2"
    by (auto simp: carries_content_def split: option.splits)
  have c: "client_reads parse reads [] [] =
             Some ([] @ concat (map (\<lambda>l. client_frame parse (trim l)) ?lines))"
    by (rule client_reads_complete [OF _ t wf]) simp_all
  have o: "ollama_reads parse reads [] True [] =
             Some (snd (ollama_frames parse True [] (map trim ?lines)))"
    by (rule ollama_reads_complete [OF _ t wf]) simp_all
  have "map it_content (concat (map (\<lambda>l. client_frame parse (trim l)) ?lines)) = [JStr c1, JStr c2]"
    using client_frame_content [of parse "trim l1", OF d1]
      client_frame_content [of parse "trim l2", OF d2]
      client_frame_unparsed [of parse "trim bad", OF assms(7)] assms(2,4)
    by simp
  moreover have "map chunk_content (snd (ollama_frames parse True [] (map trim ?lines))) =
      [JStr c1, JStr c2]"
    using ollama_frame_content [of parse "trim l1", OF d1]
      ollama_frame_content [of parse "trim l2", OF d2]
      ollama_frame_unparsed [of parse "trim bad", OF assms(7)] assms(2,4)
    by (simp add: ollama_frames_contents)
  ultimately show ?thesis
    using c o by (simp add: processOllamaStream_def createOllamaStreamProcessor_def)
qed

text \<open>
  C6: the code at an empty line between two valid lines. All three processors
  reach the empty line with \<open>lineEnd\<close> 0, \<^verbatim>\<open>continue\<close>, and never return: the second
  fragment is never yielded, whatever \<^verbatim>\<open>JSON.parse\<close> does.
\<close>

theorem C6_empty_line_never_returns:
  \<open>processOllamaStream parse
      (Some [''{"message":{"content":"Hel"},"done":false}\<newline>\<newline>{"message":{"content":"lo"},"done":false}\<newline>''])
     = None
   \<and> createOllamaStreamProcessor parse
      (Some [''{"message":{"content":"Hel"},"done":false}\<newline>\<newline>{"message":{"content":"lo"},"done":false}\<newline>''])
     = None
   \<and> createStreamProcessor parse True
      (Some [''{"message":{"content":"Hel"},"done":false}\<newline>\<newline>{"message":{"content":"lo"},"done":false}\<newline>''])
     = None\<close>
proof -
  let ?l1 = \<open>''{"message":{"content":"Hel"},"done":false}''\<close>
  let ?rest = \<open>''{"message":{"content":"lo"},"done":false}\<newline>''\<close>
  let ?text = \<open>''{"message":{"content":"Hel"},"done":false}\<newline>\<newline>{"message":{"content":"lo"},"done":false}\<newline>''\<close>
  have t: "?text = lines_text [?l1] @ nl # ?rest" by (simp add: nl_def)
  have wf: "\<forall>l \<in> set [?l1]. nl \<notin> set l \<and> trim l \<noteq> []"
    by (simp add: nl_def trim_def is_space_def)
  have "client_lines parse ?text (indexOf ?text nl) [] = None"
    unfolding t by (rule client_lines_empty_line [OF wf])
  moreover have "ollama_lines parse ?text (indexOf ?text nl) True [] = None"
    unfolding t by (rule ollama_lines_empty_line [OF wf])
  ultimately show ?thesis
    by (simp add: processOllamaStream_def createOllamaStreamProcessor_def
        createStreamProcessor_def)
qed

section \<open>What follows the last newline\<close>

lemma client_reads_no_newline:
  assumes "nl \<notin> set (concat reads)"
  shows "client_reads parse reads [] out = Some out"
  using client_reads_complete [of "[]" reads "[]" "concat reads" parse out] assms by simp

lemma ollama_reads_no_newline:
  assumes "nl \<notin> set (concat reads)"
  shows "ollama_reads parse reads [] isFirst out = Some out"
  using ollama_reads_complete [of "[]" reads "[]" "concat reads" parse isFirst out] assms by simp

lemma ollama_lines_no_newline:
  assumes "nl \<notin> set b"
  shows "ollama_lines parse b (indexOf b nl) isFirst out = Some (b, isFirst, out)"
  using assms by (subst ollama_lines.simps) (simp add: indexOf_None)

lemma remaining_single:
  assumes "line \<noteq> []"
  shows "remaining_lines parse True [line] isFirst out =
           out @ map Built (ollama_frame parse isFirst line)"
  using assms by simp

text \<open>
  C8: the code at a stream whose only line has no newline at its end.
  \<^verbatim>\<open>processOllamaStream\<close> and \<^verbatim>\<open>createOllamaStreamProcessor\<close> leave the loop over the reads
  and yield nothing: the line stays in the buffer. \<^verbatim>\<open>createStreamProcessor\<close> goes through
  the rest of the buffer after the loop and yields the chunk of the line.
\<close>

theorem C8_unterminated_line_dropped:
  \<open>processOllamaStream parse (Some [''{"message":{"content":"Hel"},"done":false}'']) = Some (Inr [])
   \<and> createOllamaStreamProcessor parse (Some [''{"message":{"content":"Hel"},"done":false}''])
       = Some (Inr [])
   \<and> createStreamProcessor parse True (Some [''{"message":{"content":"Hel"},"done":false}''])
       = Some (Inr (map Built (ollama_frame parse True ''{"message":{"content":"Hel"},"done":false}'')))\<close>
proof -
  let ?l = \<open>''{"message":{"content":"Hel"},"done":false}''\<close>
  have n: "nl \<notin> set (concat [?l])" by (simp add: nl_def)
  have n': "nl \<notin> set ([] @ ?l)" by (simp add: nl_def)
  have ne: "?l \<noteq> []" by simp
  have tr: "trim ?l = ?l" by (simp add: trim_def is_space_def)
  have sp: "split_on nl ?l = [?l]" by (simp add: nl_def)
  have sr: "stream_reads parse True [?l] [] True [] = Some (?l, True, [])"
    using ollama_lines_no_newline [OF n', of parse True "[]"] by simp
  have "createStreamProcessor parse True (Some [?l]) =
          Some (Inr (if trim ?l \<noteq> []
                     then remaining_lines parse True (split_on nl (trim ?l)) True [] else []))"
    by (simp only: createStreamProcessor_def sr option.case prod.case)
  also have "\<dots> = Some (Inr (remaining_lines parse True [?l] True []))"
    unfolding tr sp using ne by simp
  also have "\<dots> = Some (Inr (map Built (ollama_frame parse True ?l)))"
    unfolding remaining_single [OF ne] by simp
  finally have s: "createStreamProcessor parse True (Some [?l]) =
          Some (Inr (map Built (ollama_frame parse True ?l)))" .
  have c: "processOllamaStream parse (Some [?l]) = Some (Inr [])"
    using client_reads_no_newline [OF n, of parse "[]"] by (simp add: processOllamaStream_def)
  have o: "createOllamaStreamProcessor parse (Some [?l]) = Some (Inr [])"
    using ollama_reads_no_newline [OF n, of parse True "[]"]
    by (simp add: createOllamaStreamProcessor_def)
  from c o s show ?thesis by (intro conjI)
qed

section \<open>Frames without content\<close>

lemma ollama_frame_finish:
  assumes "\<not> frame_done parse l" and "c \<in> set (ollama_frame parse isFirst (trim l))"
  shows "ch_finish_reason c = None"
  using assms
  by (auto simp: frame_done_def ollama_frame_def ollama_chunk_def split: option.splits if_splits)

lemma ollama_frames_mem:
  assumes "c \<in> set (snd (ollama_frames parse isFirst out ls))"
  shows "c \<in> set out \<or> (\<exists>l \<in> set ls. \<exists>b. c \<in> set (ollama_frame parse b l))"
  using assms
proof (induction ls arbitrary: isFirst out)
  case Nil
  then show ?case by simp
next
  case (Cons l ls)
  from Cons.IH [OF Cons.prems [simplified]]
  show ?case by auto
qed

lemma ollama_lines_contents:
  assumes "list_all2 (carries_content parse) ls cs"
  shows "concat (map (\<lambda>l. map chunk_content (ollama_frame parse True l)) (map trim ls)) =
           map JStr (filter (\<lambda>c. c \<noteq> []) cs)"
  using assms by (induction rule: list_all2_induct) (simp_all add: carries_content_text)

text \<open>
  C10: a parsed line whose \<^verbatim>\<open>message.content\<close> is missing, \<^verbatim>\<open>null\<close> or the empty string
  yields no chunk. So when no content line has a truthy \<^verbatim>\<open>done\<close> and the final
  \<^verbatim>\<open>done: true\<close> frame carries no content, the processor returns the chunks of the
  content lines only, and none of them has the finish reason \<^verbatim>\<open>stop\<close>.
\<close>

theorem C10_no_content_no_chunk:
  "(parse line = Some data
      \<and> (message_content data = JUndefined \<or> message_content data = JNull
         \<or> message_content data = JStr [])
    \<longrightarrow> client_frame parse line = [] \<and> ollama_frame parse isFirst line = [])
   \<and> (list_all2 (carries_content parse) ls cs \<and> (\<forall>l \<in> set ls. \<not> frame_done parse l)
      \<and> final_frame parse final [] \<and> concat reads = lines_text (ls @ [final])
    \<longrightarrow> (\<exists>chunks. createOllamaStreamProcessor parse (Some reads) = Some (Inr chunks)
          \<and> map chunk_content chunks = map JStr (filter (\<lambda>c. c \<noteq> []) cs)
          \<and> (\<forall>c \<in> set chunks. ch_finish_reason c \<noteq> Some ''stop'')))"
proof (intro conjI impI)
  assume a: "parse line = Some data
      \<and> (message_content data = JUndefined \<or> message_content data = JNull
         \<or> message_content data = JStr [])"
  then show "client_frame parse line = []"
    using client_frame_no_content [of parse line data] by blast
  from a show "ollama_frame parse isFirst line = []"
    using ollama_frame_no_content [of parse line data] by blast
next
  assume a: "list_all2 (carries_content parse) ls cs \<and> (\<forall>l \<in> set ls. \<not> frame_done parse l)
      \<and> final_frame parse final [] \<and> concat reads = lines_text (ls @ [final])"
  let ?lines = "ls @ [final]"
  let ?out = "snd (ollama_frames parse True [] (map trim ?lines))"
  from a have ls: "list_all2 (carries_content parse) ls cs" by blast
  from a have fin: "final_frame parse final []" by blast
  have wf: "\<forall>l \<in> set ?lines. nl \<notin> set l \<and> trim l \<noteq> []"
    using well_formed_lines [OF ls] fin by (auto simp: final_frame_def)
  have t: "[] @ concat reads = lines_text ?lines @ []" using a by simp
  have r: "ollama_reads parse reads [] True [] = Some ?out"
    by (rule ollama_reads_complete [OF _ t wf]) simp_all
  obtain data where d: "parse (trim final) = Some data"
    and m: "message_content data = JUndefined \<or> message_content data = JNull
            \<or> message_content data = JStr []"
    using fin by (auto simp: final_frame_def split: option.splits)
  have e: "ollama_frame parse b (trim final) = []" for b
    using ollama_frame_no_content [of parse "trim final", OF d m] .
  have c: "map chunk_content ?out = map JStr (filter (\<lambda>c. c \<noteq> []) cs)"
    using ollama_lines_contents [OF ls] by (simp add: ollama_frames_contents e)
  have f: "\<forall>c \<in> set ?out. ch_finish_reason c \<noteq> Some ''stop''"
  proof
    fix c assume "c \<in> set ?out"
    from ollama_frames_mem [OF this]
    obtain l' b where "l' \<in> set (map trim ?lines)" "c \<in> set (ollama_frame parse b l')"
      by auto
    then obtain l where "l \<in> set ?lines" "c \<in> set (ollama_frame parse b (trim l))"
      by auto
    with e have "l \<in> set ls" "c \<in> set (ollama_frame parse b (trim l))" by auto
    with a ollama_frame_finish [of parse l c b] show "ch_finish_reason c \<noteq> Some ''stop''"
      by auto
  qed
  from r c f show "\<exists>chunks. createOllamaStreamProcessor parse (Some reads) = Some (Inr chunks)
          \<and> map chunk_content chunks = map JStr (filter (\<lambda>c. c \<noteq> []) cs)
          \<and> (\<forall>c \<in> set chunks. ch_finish_reason c \<noteq> Some ''stop'')"
    by (simp add: createOllamaStreamProcessor_def)
qed


theorem C10_no_content_no_chunk_witness:
  \<open>json_sample ''{"done":true}'' = Some (JObj [(''done'', JBool True)])
   \<and> message_content (JObj [(''done'', JBool True)]) = JUndefined
   \<and> client_frame json_sample ''{"done":true}'' = []
   \<and> ollama_frame json_sample True ''{"done":true}'' = []
   \<and> list_all2 (carries_content json_sample) [''{"message":{"content":"Hel"},"done":false}''] [''Hel'']
   \<and> \<not> frame_done json_sample ''{"message":{"content":"Hel"},"done":false}''
   \<and> final_frame json_sample ''{"done":true}'' []
   \<and> concat [''{"message":{"content":"Hel"},"done":false}\<newline>{"done":true}\<newline>'']
       = lines_text ([''{"message":{"content":"Hel"},"done":false}''] @ [''{"done":true}''])
   \<and> (\<exists>c.
         createOllamaStreamProcessor json_sample
           (Some [''{"message":{"content":"Hel"},"done":false}\<newline>{"done":true}\<newline>''])
           = Some (Inr [c])
         \<and> chunk_content c = JStr ''Hel''
         \<and> ch_finish_reason c \<noteq> Some ''stop'')\<close>
proof -
  have a: \<open>json_sample ''{"done":true}'' = Some (JObj [(''done'', JBool True)])\<close>
    by (simp add: json_sample_def)
  have b: \<open>message_content (JObj [(''done'', JBool True)]) = JUndefined\<close>
    by (simp add: message_content_def)
  have c: \<open>list_all2 (carries_content json_sample)
             [''{"message":{"content":"Hel"},"done":false}''] [''Hel'']\<close>
    by (simp add: carries_content_def json_sample_def message_content_def trim_def
        is_space_def nl_def)
  have d: \<open>\<not> frame_done json_sample ''{"message":{"content":"Hel"},"done":false}''\<close>
    by (simp add: frame_done_def json_sample_def trim_def is_space_def)
  have e: \<open>final_frame json_sample ''{"done":true}'' []\<close>
    by (simp add: final_frame_def json_sample_def message_content_def trim_def
        is_space_def nl_def)
  have f: \<open>concat [''{"message":{"content":"Hel"},"done":false}\<newline>{"done":true}\<newline>'']
       = lines_text ([''{"message":{"content":"Hel"},"done":false}''] @ [''{"done":true}''])\<close>
    by (simp add: nl_def)
  from C10_no_content_no_chunk
    [of json_sample \<open>''{"done":true}''\<close> \<open>JObj [(''done'', JBool True)]\<close> True
        \<open>[''{"message":{"content":"Hel"},"done":false}'']\<close> \<open>[''Hel'']\<close>
        \<open>''{"done":true}''\<close>
        \<open>[''{"message":{"content":"Hel"},"done":false}\<newline>{"done":true}\<newline>'']\<close>]
    a b c d e f
  have g: \<open>client_frame json_sample ''{"done":true}'' = []
           \<and> ollama_frame json_sample True ''{"done":true}'' = []\<close>
    and ex: \<open>\<exists>chunks. createOllamaStreamProcessor json_sample
           (Some [''{"message":{"content":"Hel"},"done":false}\<newline>{"done":true}\<newline>''])
           = Some (Inr chunks)
         \<and> map chunk_content chunks = [JStr ''Hel'']
         \<and> (\<forall>c \<in> set chunks. ch_finish_reason c \<noteq> Some ''stop'')\<close>
    by simp_all
  from ex obtain chunks where
    h: \<open>createOllamaStreamProcessor json_sample
           (Some [''{"message":{"content":"Hel"},"done":false}\<newline>{"done":true}\<newline>''])
           = Some (Inr chunks)\<close>
      \<open>map chunk_content chunks = [JStr ''Hel'']\<close>
      \<open>\<forall>c \<in> set chunks. ch_finish_reason c \<noteq> Some ''stop''\<close>
    by (elim exE conjE)
  from h(2) obtain c where k: "chunks = [c]" "chunk_content c = JStr ''Hel''"
    by (cases chunks) auto
  with h have \<open>\<exists>c. createOllamaStreamProcessor json_sample
           (Some [''{"message":{"content":"Hel"},"done":false}\<newline>{"done":true}\<newline>''])
           = Some (Inr [c])
         \<and> chunk_content c = JStr ''Hel''
         \<and> ch_finish_reason c \<noteq> Some ''stop''\<close>
    by auto
  with a b c d e f g show ?thesis by blast
qed

section \<open>The role of a turn\<close>















lemma stream_single_read:
  assumes "\<forall>l \<in> set ls. nl \<notin> set l \<and> trim l \<noteq> []" and "nl \<notin> set r"
  shows "stream_reads parse True [lines_text ls @ r] [] True [] =
           Some (r, fst (ollama_frames parse True [] (map trim ls)),
                 map Built (snd (ollama_frames parse True [] (map trim ls))))"
  using ollama_lines_complete [OF assms, of parse True "[]"]
  by (simp split: prod.splits)











subsection \<open>A final line with no newline\<close>


lemma line_then_unterminated:
  assumes "nl \<notin> set l" and "trim l \<noteq> []" and "nl \<notin> set r"
  shows "processOllamaStream parse (Some [l @ nl # r]) = Some (Inr (client_frame parse (trim l)))"
    and "createOllamaStreamProcessor parse (Some [l @ nl # r]) =
           Some (Inr (ollama_frame parse True (trim l)))"
    and "stream_reads parse True [l @ nl # r] [] True [] =
           Some (r, ollama_frame parse True (trim l) = [],
                 map Built (ollama_frame parse True (trim l)))"
proof -
  have wf: "\<forall>x \<in> set [l]. nl \<notin> set x \<and> trim x \<noteq> []" using assms by simp
  have "client_reads parse [l @ nl # r] [] [] =
          Some ([] @ concat (map (\<lambda>l. client_frame parse (trim l)) [l]))"
    by (rule client_reads_complete [where r = r, OF _ _ wf assms(3)]) simp_all
  then show "processOllamaStream parse (Some [l @ nl # r]) = Some (Inr (client_frame parse (trim l)))"
    by (simp add: processOllamaStream_def)
  have "ollama_reads parse [l @ nl # r] [] True [] =
          Some (snd (ollama_frames parse True [] (map trim [l])))"
    by (rule ollama_reads_complete [where r = r, OF _ _ wf assms(3)]) simp_all
  then show "createOllamaStreamProcessor parse (Some [l @ nl # r]) =
           Some (Inr (ollama_frame parse True (trim l)))"
    by (simp add: createOllamaStreamProcessor_def)
  show "stream_reads parse True [l @ nl # r] [] True [] =
          Some (r, ollama_frame parse True (trim l) = [], map Built (ollama_frame parse True (trim l)))"
    using stream_single_read [OF wf assms(3), of parse] by simp
qed

text \<open>
  C5: the code at a stream of a content line and a final line with \<^verbatim>\<open>done: true\<close> and
  content, the final line with no newline at its end. The contents should put together
  to \<^verbatim>\<open>Hello\<close>. \<^verbatim>\<open>processOllamaStream\<close> and \<^verbatim>\<open>createOllamaStreamProcessor\<close> leave the loop
  over the reads with the final line in the buffer and yield the content of the first
  line only, \<^verbatim>\<open>Hel\<close>. \<^verbatim>\<open>createStreamProcessor\<close> goes through the rest of the buffer after
  the loop and yields both.
\<close>

theorem C5_unterminated_final_lost:
  \<open>carries_content json_sample ''{"message":{"content":"Hel"},"done":false}'' ''Hel''
   \<and> final_frame json_sample ''{"message":{"content":"lo"},"done":true}'' ''lo''
   \<and> processOllamaStream json_sample
         (Some [''{"message":{"content":"Hel"},"done":false}\<newline>{"message":{"content":"lo"},"done":true}''])
       = Some (Inr [\<lparr>it_content = JStr ''Hel'', it_done = JBool False\<rparr>])
   \<and> concat (map item_text [\<lparr>it_content = JStr ''Hel'', it_done = JBool False\<rparr>]) = ''Hel''
   \<and> createOllamaStreamProcessor json_sample
         (Some [''{"message":{"content":"Hel"},"done":false}\<newline>{"message":{"content":"lo"},"done":true}''])
       = Some (Inr [ollama_chunk True (JStr ''Hel'') JUndefined (JBool False)])
   \<and> concat (map chunk_text [ollama_chunk True (JStr ''Hel'') JUndefined (JBool False)]) = ''Hel''
   \<and> createStreamProcessor json_sample True
         (Some [''{"message":{"content":"Hel"},"done":false}\<newline>{"message":{"content":"lo"},"done":true}''])
       = Some (Inr [Built (ollama_chunk True (JStr ''Hel'') JUndefined (JBool False)),
                    Built (ollama_chunk False (JStr ''lo'') JUndefined (JBool True))])
   \<and> concat (map chunk_text [ollama_chunk True (JStr ''Hel'') JUndefined (JBool False),
                              ollama_chunk False (JStr ''lo'') JUndefined (JBool True)]) = ''Hello''\<close>
proof -
  let ?l1 = \<open>''{"message":{"content":"Hel"},"done":false}''\<close>
  let ?l2 = \<open>''{"message":{"content":"lo"},"done":true}''\<close>
  let ?t = \<open>''{"message":{"content":"Hel"},"done":false}\<newline>{"message":{"content":"lo"},"done":true}''\<close>
  let ?c1 = "ollama_chunk True (JStr ''Hel'') JUndefined (JBool False)"
  let ?c2 = "ollama_chunk False (JStr ''lo'') JUndefined (JBool True)"
  have t: "?t = ?l1 @ nl # ?l2" by (simp add: nl_def)
  have n1: "nl \<notin> set ?l1" by (simp add: nl_def)
  have n2: "nl \<notin> set ?l2" by (simp add: nl_def)
  have tr1: "trim ?l1 = ?l1" by (simp add: trim_def is_space_def)
  have tr2: "trim ?l2 = ?l2" by (simp add: trim_def is_space_def)
  have ne1: "trim ?l1 \<noteq> []" unfolding tr1 by simp
  have ne2: "?l2 \<noteq> []" by simp
  have p1: \<open>json_sample ?l1 =
      Some (JObj [(''message'', JObj [(''content'', JStr ''Hel'')]), (''done'', JBool False)])\<close>
    by (simp add: json_sample_def)
  have p2: \<open>json_sample ?l2 =
      Some (JObj [(''message'', JObj [(''content'', JStr ''lo'')]), (''done'', JBool True)])\<close>
    by (simp add: json_sample_def)
  have f1: "client_frame json_sample (trim ?l1) =
              [\<lparr>it_content = JStr ''Hel'', it_done = JBool False\<rparr>]"
    unfolding tr1 by (simp add: client_frame_def p1 js_or_def)
  have o1: "ollama_frame json_sample True (trim ?l1) = [?c1]"
    unfolding tr1 by (simp add: ollama_frame_def p1)
  have o2: "ollama_frame json_sample False ?l2 = [?c2]"
    by (simp add: ollama_frame_def p2)
  have a: "carries_content json_sample ?l1 ''Hel''"
    using n1 by (simp add: carries_content_def tr1 p1 message_content_def)
  have b: "final_frame json_sample ?l2 ''lo''"
    using n2 by (simp add: final_frame_def tr2 p2 message_content_def)
  have c: "processOllamaStream json_sample (Some [?t]) =
      Some (Inr [\<lparr>it_content = JStr ''Hel'', it_done = JBool False\<rparr>])"
    unfolding t line_then_unterminated(1) [OF n1 ne1 n2] f1 ..
  have d: "createOllamaStreamProcessor json_sample (Some [?t]) = Some (Inr [?c1])"
    unfolding t line_then_unterminated(2) [OF n1 ne1 n2] o1 ..
  have sp: "split_on nl ?l2 = [?l2]" by (simp add: nl_def)
  have sr: "stream_reads json_sample True [?l1 @ nl # ?l2] [] True [] =
              Some (?l2, False, [Built ?c1])"
    unfolding line_then_unterminated(3) [OF n1 ne1 n2] o1 by simp
  have "createStreamProcessor json_sample True (Some [?l1 @ nl # ?l2]) =
          Some (Inr (if trim ?l2 \<noteq> []
                     then remaining_lines json_sample True (split_on nl (trim ?l2)) False [Built ?c1]
                     else [Built ?c1]))"
    by (simp only: createStreamProcessor_def sr option.case prod.case)
  also have "\<dots> = Some (Inr (remaining_lines json_sample True [?l2] False [Built ?c1]))"
    unfolding tr2 sp using ne2 by simp
  also have "\<dots> = Some (Inr [Built ?c1, Built ?c2])"
    using ne2 by (simp only: remaining_lines.simps o2) simp
  finally have e: "createStreamProcessor json_sample True (Some [?t]) =
      Some (Inr [Built ?c1, Built ?c2])"
    unfolding t .
  have x: "concat (map item_text [\<lparr>it_content = JStr ''Hel'', it_done = JBool False\<rparr>]) = ''Hel''"
    by (simp add: item_text_def)
  have y: "concat (map chunk_text [?c1]) = ''Hel''"
    by (simp add: chunk_text_def chunk_content_def ollama_chunk_def)
  have z: "concat (map chunk_text [?c1, ?c2]) = ''Hello''"
    by (simp add: chunk_text_def chunk_content_def ollama_chunk_def)
  from a b c x d y e z show ?thesis by (intro conjI)
qed

section \<open>Intent recovery\<close>

lemma intent_recovery_explicit:
  assumes "js_match text explicitFuncCallRegex = Some m"
  shows "intent_recovery parse patterns text = explicit_call parse m"
  using assms by (simp add: intent_recovery_def)

lemma explicit_call_named:
  assumes "group m 1 = Some inner"
    and "js_match inner invokeNameRegex = Some nameMatch"
    and "group nameMatch 1 = Some functionName"
  shows "explicit_call parse m =
           Some \<lparr>inv_name = functionName,
                 inv_arguments =
                   foldl (add_param parse) \<lparr>obj_own = [], obj_proto = ObjectPrototype\<rparr>
                     (js_matchAll inner parameterRegex)\<rparr>"
  using assms by (simp add: explicit_call_def new_object_def)

lemma explicit_call_unnamed:
  assumes "group m 1 = Some inner" and "js_match inner invokeNameRegex = None"
  shows "explicit_call parse m = None"
  using assms by (simp add: explicit_call_def)

lemma intent_recovery_command:
  assumes "js_match text explicitFuncCallRegex = None"
    and "detect_command patterns text = Some command" and "command \<noteq> []"
  shows "intent_recovery parse patterns text = Some \<lparr>inv_name = ''Bash'', inv_arguments = \<lparr>obj_own = [(''command'', JStr command)], obj_proto = ObjectPrototype\<rparr>\<rparr>"
  using assms by (simp add: intent_recovery_def synthesized_call_def new_object_def)

lemma thinking_fallback_set:
  assumes "command \<noteq> []"
  shows "thinking_fallback (Some command) text = Some command"
  using assms by (simp add: thinking_fallback_def is_set_def)

lemma recover_command:
  assumes "js_match text explicitFuncCallRegex = None"
  shows "detect_command commandPatterns_streaming text = Some command \<Longrightarrow> command \<noteq> [] \<Longrightarrow>
           recover_streaming parse text = Some \<lparr>inv_name = ''Bash'', inv_arguments = \<lparr>obj_own = [(''command'', JStr command)], obj_proto = ObjectPrototype\<rparr>\<rparr>"
    and "detect_command commandPatterns_nonstreaming text = Some command \<Longrightarrow> command \<noteq> [] \<Longrightarrow>
           recover_nonstreaming parse text = Some \<lparr>inv_name = ''Bash'', inv_arguments = \<lparr>obj_own = [(''command'', JStr command)], obj_proto = ObjectPrototype\<rparr>\<rparr>"
  unfolding recover_streaming_def recover_nonstreaming_def
  using assms by (simp_all add: intent_recovery_command)

subsection \<open>The argument object\<close>

lemma set_prop_proto:
  "set_prop \<lparr>obj_own = [], obj_proto = ObjectPrototype\<rparr> ''__proto__'' (JObj kvs)
     = \<lparr>obj_own = [], obj_proto = ObjProto kvs\<rparr>"
  "set_prop \<lparr>obj_own = [], obj_proto = ObjectPrototype\<rparr> ''__proto__'' (JStr s)
     = \<lparr>obj_own = [], obj_proto = ObjectPrototype\<rparr>"
  "set_prop \<lparr>obj_own = [], obj_proto = NullPrototype\<rparr> ''__proto__'' (JObj kvs)
     = \<lparr>obj_own = [(''__proto__'', JObj kvs)], obj_proto = NullPrototype\<rparr>"
  "set_prop \<lparr>obj_own = [], obj_proto = ObjectPrototype\<rparr> ''command'' v
     = \<lparr>obj_own = [(''command'', v)], obj_proto = ObjectPrototype\<rparr>"
  by (simp_all add: set_prop_def proto_setter_reached_def set_prototype_def)

lemma proto_parameter_inherited:
  \<open>recover_streaming json_sample ''<function_calls><invoke name="Bash"><parameter name="__proto__">{"command":"ls"}</parameter></invoke></function_calls>'' = Some \<lparr>inv_name = ''Bash'', inv_arguments = \<lparr>obj_own = [], obj_proto = ObjProto [(''command'', JStr ''ls'')]\<rparr>\<rparr>\<close>
  \<open>recover_nonstreaming json_sample ''<function_calls><invoke name="Bash"><parameter name="__proto__">{"command":"ls"}</parameter></invoke></function_calls>'' = Some \<lparr>inv_name = ''Bash'', inv_arguments = \<lparr>obj_own = [], obj_proto = ObjProto [(''command'', JStr ''ls'')]\<rparr>\<rparr>\<close>
  \<open>params_command \<lparr>obj_own = [], obj_proto = ObjProto [(''command'', JStr ''ls'')]\<rparr> = JStr ''ls''\<close>
  by code_simp+

subsection \<open>The explicit block\<close>

lemma block_first:
  \<open>js_match ''I'll run `ls`. <function_calls><invoke name="Read"><parameter name="path">a.txt</parameter></invoke></function_calls>'' explicitFuncCallRegex = Some \<lparr>matched = ''<function_calls><invoke name="Read"><parameter name="path">a.txt</parameter></invoke></function_calls>'', captures = [(1, ''<invoke name="Read"><parameter name="path">a.txt</parameter></invoke>'')], after = []\<rparr>\<close>
  \<open>group \<lparr>matched = ''<function_calls><invoke name="Read"><parameter name="path">a.txt</parameter></invoke></function_calls>'', captures = [(1, ''<invoke name="Read"><parameter name="path">a.txt</parameter></invoke>'')], after = []\<rparr> 1 = Some ''<invoke name="Read"><parameter name="path">a.txt</parameter></invoke>''\<close>
  \<open>js_match ''<invoke name="Read"><parameter name="path">a.txt</parameter></invoke>'' invokeNameRegex = Some \<lparr>matched = ''<invoke name="Read">'', captures = [(1, ''Read'')], after = ''<parameter name="path">a.txt</parameter></invoke>''\<rparr>\<close>
  \<open>group \<lparr>matched = ''<invoke name="Read">'', captures = [(1, ''Read'')], after = ''<parameter name="path">a.txt</parameter></invoke>''\<rparr> 1 = Some ''Read''\<close>
  \<open>foldl (add_param json_sample) \<lparr>obj_own = [], obj_proto = ObjectPrototype\<rparr>
      (js_matchAll ''<invoke name="Read"><parameter name="path">a.txt</parameter></invoke>'' parameterRegex)
     = \<lparr>obj_own = [(''path'', JStr ''a.txt'')], obj_proto = ObjectPrototype\<rparr>\<close>
  by code_simp+

lemma block_first_heuristic:
  \<open>detect_command commandPatterns_streaming ''I'll run `ls`. <function_calls><invoke name="Read"><parameter name="path">a.txt</parameter></invoke></function_calls>'' = Some ''ls''\<close>
  \<open>detect_command commandPatterns_nonstreaming ''I'll run `ls`. <function_calls><invoke name="Read"><parameter name="path">a.txt</parameter></invoke></function_calls>'' = Some ''ls''\<close>
  by code_simp+

lemma block_alone:
  \<open>js_match ''<function_calls><invoke name="Read"><parameter name="path">a.txt</parameter></invoke></function_calls>'' explicitFuncCallRegex = Some \<lparr>matched = ''<function_calls><invoke name="Read"><parameter name="path">a.txt</parameter></invoke></function_calls>'', captures = [(1, ''<invoke name="Read"><parameter name="path">a.txt</parameter></invoke>'')], after = []\<rparr>\<close>
  by code_simp

lemma malformed_first:
  \<open>js_match (''I'll run `ls`. <function_calls>oops</function_calls> '' @ ''<function_calls><invoke name="Read"><parameter name="path">a.txt</parameter></invoke></function_calls>'') explicitFuncCallRegex = Some \<lparr>matched = ''<function_calls>oops</function_calls>'', captures = [(1, ''oops'')], after = '' <function_calls><invoke name="Read"><parameter name="path">a.txt</parameter></invoke></function_calls>''\<rparr>\<close>
  \<open>group \<lparr>matched = ''<function_calls>oops</function_calls>'', captures = [(1, ''oops'')], after = '' <function_calls><invoke name="Read"><parameter name="path">a.txt</parameter></invoke></function_calls>''\<rparr> 1 = Some ''oops''\<close>
  \<open>js_match ''oops'' invokeNameRegex = None\<close>
  by code_simp+

lemma malformed_first_heuristic:
  \<open>detect_command commandPatterns_streaming (''I'll run `ls`. <function_calls>oops</function_calls> '' @ ''<function_calls><invoke name="Read"><parameter name="path">a.txt</parameter></invoke></function_calls>'') = Some ''ls''\<close>
  \<open>detect_command commandPatterns_nonstreaming (''I'll run `ls`. <function_calls>oops</function_calls> '' @ ''<function_calls><invoke name="Read"><parameter name="path">a.txt</parameter></invoke></function_calls>'') = Some ''ls''\<close>
  by code_simp+

text \<open>
  C1, as stated, fails. The code reads the first span between the markers only
  (\<^verbatim>\<open>match\<close> without the flag \<^verbatim>\<open>g\<close>, and the shortest span from the leftmost opening marker).
  A text with a span that has no \<^verbatim>\<open><invoke name="...">\<close> before a well-formed block is
  returned as ordinary content: the block that follows is not read, although recovery
  reads it when it stands alone, and the table of command patterns is not consulted,
  although the phrase \<^verbatim>\<open>run `ls`\<close> of the text matches one of its patterns.
\<close>

theorem C1_counterexample:
  \<open>recover_streaming json_sample ''<function_calls><invoke name="Read"><parameter name="path">a.txt</parameter></invoke></function_calls>'' = Some \<lparr>inv_name = ''Read'', inv_arguments = \<lparr>obj_own = [(''path'', JStr ''a.txt'')], obj_proto = ObjectPrototype\<rparr>\<rparr>
   \<and> recover_nonstreaming json_sample ''<function_calls><invoke name="Read"><parameter name="path">a.txt</parameter></invoke></function_calls>'' = Some \<lparr>inv_name = ''Read'', inv_arguments = \<lparr>obj_own = [(''path'', JStr ''a.txt'')], obj_proto = ObjectPrototype\<rparr>\<rparr>
   \<and> detect_command commandPatterns_streaming (''I'll run `ls`. <function_calls>oops</function_calls> '' @ ''<function_calls><invoke name="Read"><parameter name="path">a.txt</parameter></invoke></function_calls>'') = Some ''ls''
   \<and> detect_command commandPatterns_nonstreaming (''I'll run `ls`. <function_calls>oops</function_calls> '' @ ''<function_calls><invoke name="Read"><parameter name="path">a.txt</parameter></invoke></function_calls>'') = Some ''ls''
   \<and> recover_streaming json_sample (''I'll run `ls`. <function_calls>oops</function_calls> '' @ ''<function_calls><invoke name="Read"><parameter name="path">a.txt</parameter></invoke></function_calls>'') = None
   \<and> recover_nonstreaming json_sample (''I'll run `ls`. <function_calls>oops</function_calls> '' @ ''<function_calls><invoke name="Read"><parameter name="path">a.txt</parameter></invoke></function_calls>'') = None\<close>
proof -
  have a: \<open>intent_recovery json_sample patterns ''<function_calls><invoke name="Read"><parameter name="path">a.txt</parameter></invoke></function_calls>'' = Some \<lparr>inv_name = ''Read'', inv_arguments = \<lparr>obj_own = [(''path'', JStr ''a.txt'')], obj_proto = ObjectPrototype\<rparr>\<rparr>\<close> for patterns
    unfolding intent_recovery_explicit [OF block_alone]
      explicit_call_named [OF block_first(2) block_first(3) block_first(4)] block_first(5) ..
  have b: \<open>intent_recovery json_sample patterns (''I'll run `ls`. <function_calls>oops</function_calls> '' @ ''<function_calls><invoke name="Read"><parameter name="path">a.txt</parameter></invoke></function_calls>'') = None\<close> for patterns
    unfolding intent_recovery_explicit [OF malformed_first(1)]
      explicit_call_unnamed [OF malformed_first(2) malformed_first(3)] ..
  show ?thesis
    unfolding recover_streaming_def recover_nonstreaming_def a b
    using malformed_first_heuristic by simp
qed

text \<open>
  C1, amended: when the text has a span between the markers, recovery is decided by the
  first such span, whatever the table of command patterns holds and whether or not one
  of its patterns matches the text. When the span has an \<^verbatim>\<open><invoke name="...">\<close>, recovery
  returns the invocation of that name with the parameters of the span; when it has none,
  recovery returns nothing and the text is ordinary content. The table is consulted only
  when the text has no span between the markers.
\<close>

theorem C1_first_block_decides:
  assumes "js_match text explicitFuncCallRegex = Some m"
    and "group m 1 = Some inner"
  shows "(js_match inner invokeNameRegex = Some nameMatch \<and> group nameMatch 1 = Some functionName
          \<longrightarrow> intent_recovery parse patterns text =
                Some \<lparr>inv_name = functionName,
                      inv_arguments =
                        foldl (add_param parse) \<lparr>obj_own = [], obj_proto = ObjectPrototype\<rparr>
                          (js_matchAll inner parameterRegex)\<rparr>)
         \<and> (js_match inner invokeNameRegex = None
            \<longrightarrow> intent_recovery parse patterns text = None)
         \<and> recover_streaming parse text = intent_recovery parse patterns text
         \<and> recover_nonstreaming parse text = intent_recovery parse patterns text"
  unfolding recover_streaming_def recover_nonstreaming_def
    intent_recovery_explicit [OF assms(1)]
  using assms(2) by (simp add: explicit_call_named explicit_call_unnamed)

theorem C1_first_block_decides_witness:
  \<open>js_match ''I'll run `ls`. <function_calls><invoke name="Read"><parameter name="path">a.txt</parameter></invoke></function_calls>'' explicitFuncCallRegex = Some \<lparr>matched = ''<function_calls><invoke name="Read"><parameter name="path">a.txt</parameter></invoke></function_calls>'', captures = [(1, ''<invoke name="Read"><parameter name="path">a.txt</parameter></invoke>'')], after = []\<rparr>
   \<and> group \<lparr>matched = ''<function_calls><invoke name="Read"><parameter name="path">a.txt</parameter></invoke></function_calls>'', captures = [(1, ''<invoke name="Read"><parameter name="path">a.txt</parameter></invoke>'')], after = []\<rparr> 1 = Some ''<invoke name="Read"><parameter name="path">a.txt</parameter></invoke>''
   \<and> js_match ''<invoke name="Read"><parameter name="path">a.txt</parameter></invoke>'' invokeNameRegex = Some \<lparr>matched = ''<invoke name="Read">'', captures = [(1, ''Read'')], after = ''<parameter name="path">a.txt</parameter></invoke>''\<rparr>
   \<and> group \<lparr>matched = ''<invoke name="Read">'', captures = [(1, ''Read'')], after = ''<parameter name="path">a.txt</parameter></invoke>''\<rparr> 1 = Some ''Read''
   \<and> detect_command commandPatterns_streaming ''I'll run `ls`. <function_calls><invoke name="Read"><parameter name="path">a.txt</parameter></invoke></function_calls>'' = Some ''ls''
   \<and> detect_command commandPatterns_nonstreaming ''I'll run `ls`. <function_calls><invoke name="Read"><parameter name="path">a.txt</parameter></invoke></function_calls>'' = Some ''ls''
   \<and> recover_streaming json_sample ''I'll run `ls`. <function_calls><invoke name="Read"><parameter name="path">a.txt</parameter></invoke></function_calls>'' = Some \<lparr>inv_name = ''Read'', inv_arguments = \<lparr>obj_own = [(''path'', JStr ''a.txt'')], obj_proto = ObjectPrototype\<rparr>\<rparr>
   \<and> recover_nonstreaming json_sample ''I'll run `ls`. <function_calls><invoke name="Read"><parameter name="path">a.txt</parameter></invoke></function_calls>'' = Some \<lparr>inv_name = ''Read'', inv_arguments = \<lparr>obj_own = [(''path'', JStr ''a.txt'')], obj_proto = ObjectPrototype\<rparr>\<rparr>
   \<and> js_match (''I'll run `ls`. <function_calls>oops</function_calls> '' @ ''<function_calls><invoke name="Read"><parameter name="path">a.txt</parameter></invoke></function_calls>'') explicitFuncCallRegex = Some \<lparr>matched = ''<function_calls>oops</function_calls>'', captures = [(1, ''oops'')], after = '' <function_calls><invoke name="Read"><parameter name="path">a.txt</parameter></invoke></function_calls>''\<rparr>
   \<and> group \<lparr>matched = ''<function_calls>oops</function_calls>'', captures = [(1, ''oops'')], after = '' <function_calls><invoke name="Read"><parameter name="path">a.txt</parameter></invoke></function_calls>''\<rparr> 1 = Some ''oops''
   \<and> js_match ''oops'' invokeNameRegex = None
   \<and> recover_streaming json_sample (''I'll run `ls`. <function_calls>oops</function_calls> '' @ ''<function_calls><invoke name="Read"><parameter name="path">a.txt</parameter></invoke></function_calls>'') = None
   \<and> recover_nonstreaming json_sample (''I'll run `ls`. <function_calls>oops</function_calls> '' @ ''<function_calls><invoke name="Read"><parameter name="path">a.txt</parameter></invoke></function_calls>'') = None\<close>
proof -
  note w = C1_first_block_decides [OF block_first(1) block_first(2),
      where nameMatch = \<open>\<lparr>matched = ''<invoke name="Read">'', captures = [(1, ''Read'')], after = ''<parameter name="path">a.txt</parameter></invoke>''\<rparr>\<close>
        and functionName = "''Read''" and parse = json_sample
        and patterns = commandPatterns_streaming]
  from w block_first(3) block_first(4)
  have r0: \<open>intent_recovery json_sample commandPatterns_streaming ''I'll run `ls`. <function_calls><invoke name="Read"><parameter name="path">a.txt</parameter></invoke></function_calls>'' = Some \<lparr>inv_name = ''Read'', inv_arguments = \<lparr>obj_own = [(''path'', JStr ''a.txt'')], obj_proto = ObjectPrototype\<rparr>\<rparr>\<close>
    unfolding block_first(5) by blast
  from w have r1: \<open>recover_streaming json_sample ''I'll run `ls`. <function_calls><invoke name="Read"><parameter name="path">a.txt</parameter></invoke></function_calls>'' = Some \<lparr>inv_name = ''Read'', inv_arguments = \<lparr>obj_own = [(''path'', JStr ''a.txt'')], obj_proto = ObjectPrototype\<rparr>\<rparr>\<close>
    unfolding r0 by blast
  from w have r2: \<open>recover_nonstreaming json_sample ''I'll run `ls`. <function_calls><invoke name="Read"><parameter name="path">a.txt</parameter></invoke></function_calls>'' = Some \<lparr>inv_name = ''Read'', inv_arguments = \<lparr>obj_own = [(''path'', JStr ''a.txt'')], obj_proto = ObjectPrototype\<rparr>\<rparr>\<close>
    unfolding r0 by blast
  note v = C1_first_block_decides [OF malformed_first(1) malformed_first(2),
      where parse = json_sample and patterns = commandPatterns_streaming]
  from v malformed_first(3)
  have s0: \<open>intent_recovery json_sample commandPatterns_streaming (''I'll run `ls`. <function_calls>oops</function_calls> '' @ ''<function_calls><invoke name="Read"><parameter name="path">a.txt</parameter></invoke></function_calls>'') = None\<close>
    by blast
  from v have s1: \<open>recover_streaming json_sample (''I'll run `ls`. <function_calls>oops</function_calls> '' @ ''<function_calls><invoke name="Read"><parameter name="path">a.txt</parameter></invoke></function_calls>'') = None\<close>
    unfolding s0 by blast
  from v have s2: \<open>recover_nonstreaming json_sample (''I'll run `ls`. <function_calls>oops</function_calls> '' @ ''<function_calls><invoke name="Read"><parameter name="path">a.txt</parameter></invoke></function_calls>'') = None\<close>
    unfolding s0 by blast
  from block_first(1) block_first(2) block_first(3) block_first(4)
    block_first_heuristic(1) block_first_heuristic(2) r1 r2
    malformed_first(1) malformed_first(2) malformed_first(3) s1 s2
  show ?thesis by (intro conjI)
qed

subsection \<open>The git detectors\<close>


lemma git_detectors_commit:
  assumes "\<not> is_set command" and "\<not> git_status_intent text" and "\<not> git_add_intent text"
    and "git_commit_intent text"
  shows "git_detectors command text = Some (git_commit_command text)"
  using assms by (simp add: git_detectors_def)


lemma git_commit_command_default:
  assumes "group1_set (commitMatch text) = None" and "group1_set (commitAllMatch text) = None"
  shows "git_commit_command text = default_commit"
  using assms by (simp add: git_commit_command_def)

lemma default_commit_set: "default_commit \<noteq> []"
  by (simp add: default_commit_def)







lemma status_then_commit_no_block:
  "js_match ''Check git status, then git commit'' explicitFuncCallRegex = None"
  by code_simp

lemma status_then_commit_streaming:
  "detect_command commandPatterns_streaming ''Check git status, then git commit''
     = Some ''git status''"
  by code_simp

lemma bare_commit_no_block:
  "js_match ''git commit'' explicitFuncCallRegex = None"
  by code_simp

lemma bare_commit_nonstreaming:
  "detect_command commandPatterns_nonstreaming ''git commit'' = Some ''git commit''"
  by code_simp

lemma bare_commit_includes:
  "str_includes ''git commit'' ''git commit''
   \<and> str_includes ''Check git status, then git commit'' ''git commit''
   \<and> \<not> str_includes ''git commit'' ''-m''
   \<and> \<not> str_includes ''Check git status, then git commit'' ''-m''"
  by code_simp

text \<open>
  C3, as stated, fails. On the streaming path the git-status detector comes before the
  git-commit detector, so a text that also has \<^verbatim>\<open>git status\<close> gives \<^verbatim>\<open>git status\<close>. On the
  non-streaming path the table has the pattern
  \<^verbatim>\<open>/git (add|...|commit|...)(\s+[^\n]+)?/i\<close>, which matches the text \<^verbatim>\<open>git commit\<close> itself, and
  the command is the match: \<^verbatim>\<open>git commit\<close>, with no message.
\<close>

theorem C3_counterexample:
  "str_includes ''Check git status, then git commit'' ''git commit''
   \<and> \<not> str_includes ''Check git status, then git commit'' ''-m''
   \<and> js_match ''Check git status, then git commit'' explicitFuncCallRegex = None
   \<and> recover_streaming json_sample ''Check git status, then git commit''
       = Some \<lparr>inv_name = ''Bash'', inv_arguments = \<lparr>obj_own = [(''command'', JStr ''git status'')], obj_proto = ObjectPrototype\<rparr>\<rparr>
   \<and> recover_streaming json_sample ''Check git status, then git commit''
       \<noteq> Some \<lparr>inv_name = ''Bash'', inv_arguments = \<lparr>obj_own = [(''command'', JStr default_commit)], obj_proto = ObjectPrototype\<rparr>\<rparr>
   \<and> str_includes ''git commit'' ''git commit''
   \<and> \<not> str_includes ''git commit'' ''-m''
   \<and> js_match ''git commit'' explicitFuncCallRegex = None
   \<and> recover_nonstreaming json_sample ''git commit''
       = Some \<lparr>inv_name = ''Bash'', inv_arguments = \<lparr>obj_own = [(''command'', JStr ''git commit'')], obj_proto = ObjectPrototype\<rparr>\<rparr>
   \<and> recover_nonstreaming json_sample ''git commit''
       \<noteq> Some \<lparr>inv_name = ''Bash'', inv_arguments = \<lparr>obj_own = [(''command'', JStr default_commit)], obj_proto = ObjectPrototype\<rparr>\<rparr>"
  using recover_command(1) [OF status_then_commit_no_block status_then_commit_streaming, of json_sample]
    recover_command(2) [OF bare_commit_no_block bare_commit_nonstreaming, of json_sample]
    bare_commit_includes status_then_commit_no_block bare_commit_no_block
  by (simp add: default_commit_def)

text \<open>
  C3, amended: for a text with no explicit block in which no pattern of the table gives a
  command, neither the git-status nor the git-add detector fires, the git-commit
  detector fires (the lower-cased text has \<^verbatim>\<open>git commit\<close>, or one of its other phrases),
  and neither \<^verbatim>\<open>-m\<close> nor \<^verbatim>\<open>-am\<close> is followed by a quoted message, recovery returns the Bash
  invocation of \<^verbatim>\<open>git commit -m "Changes from Claude Code session"\<close>.
\<close>

theorem C3_git_commit_default:
  assumes "js_match text explicitFuncCallRegex = None"
    and "\<not> is_set (scan_patterns patterns text)"
    and "\<not> git_status_intent text"
    and "\<not> git_add_intent text"
    and "git_commit_intent text"
    and "group1_set (commitMatch text) = None"
    and "group1_set (commitAllMatch text) = None"
  shows "intent_recovery parse patterns text
           = Some \<lparr>inv_name = ''Bash'', inv_arguments = \<lparr>obj_own = [(''command'', JStr default_commit)], obj_proto = ObjectPrototype\<rparr>\<rparr>"
proof -
  have "git_detectors (scan_patterns patterns text) text = Some default_commit"
    using assms(2-7) by (simp add: git_detectors_commit git_commit_command_default)
  then have "detect_command patterns text = Some default_commit"
    by (simp add: detect_command_def thinking_fallback_set default_commit_set)
  with assms(1) show ?thesis
    by (simp add: intent_recovery_command default_commit_set)
qed

theorem C3_git_commit_default_witness:
  \<open>js_match ''git commit'' explicitFuncCallRegex = None
   \<and> \<not> is_set (scan_patterns commandPatterns_streaming ''git commit'')
   \<and> \<not> git_status_intent ''git commit''
   \<and> \<not> git_add_intent ''git commit''
   \<and> git_commit_intent ''git commit''
   \<and> group1_set (commitMatch ''git commit'') = None
   \<and> group1_set (commitAllMatch ''git commit'') = None
   \<and> recover_streaming json_sample ''git commit''
       = Some \<lparr>inv_name = ''Bash'', inv_arguments = \<lparr>obj_own = [(''command'', JStr ''git commit -m "Changes from Claude Code session"'')], obj_proto = ObjectPrototype\<rparr>\<rparr>\<close>
proof -
  have h1: "js_match ''git commit'' explicitFuncCallRegex = None"
    by (rule bare_commit_no_block)
  have h2: "\<not> is_set (scan_patterns commandPatterns_streaming ''git commit'')"
    by code_simp
  have h3: "\<not> git_status_intent ''git commit''"
    by code_simp
  have h4: "\<not> git_add_intent ''git commit''"
    by code_simp
  have h5: "git_commit_intent ''git commit''"
    by code_simp
  have h6: "group1_set (commitMatch ''git commit'') = None"
    by code_simp
  have h7: "group1_set (commitAllMatch ''git commit'') = None"
    by code_simp
  have r: \<open>recover_streaming json_sample ''git commit''
       = Some \<lparr>inv_name = ''Bash'', inv_arguments = \<lparr>obj_own = [(''command'', JStr ''git commit -m "Changes from Claude Code session"'')], obj_proto = ObjectPrototype\<rparr>\<rparr>\<close>
    unfolding recover_streaming_def
    using C3_git_commit_default [OF h1 h2 h3 h4 h5 h6 h7, of json_sample]
    by (simp add: default_commit_def)
  from h1 h2 h3 h4 h5 h6 h7 r show ?thesis by (intro conjI)
qed

end
